theory Spec2Isabelle
  imports Main "HOL-Library.Sublist" "HOL-Library.AList"
begin

section \<open>Python primitives used by the tools\<close>

text \<open>
  Strings are \<^typ>\<open>string\<close>: lists of characters, read as the code points 0 to 255.
  Letter case is converted for the ASCII letters. Exceptions are values of \<open>py_error\<close>;
  a computation that may raise has a result of type \<open>py_error + 'a\<close>, with \<open>Inl\<close> for
  the exception.
\<close>

datatype py_error =
    AttributeError
  | KeyError
  | InvalidDicomError
  | BytesLengthException
  | FileNotFoundError
  | FileExistsError
  | NotADirectoryError
  | IsADirectoryError
  | PermissionError
  | SameFileError
  | ShutilError

definition bind_err :: "py_error + 'a \<Rightarrow> ('a \<Rightarrow> py_error + 'b) \<Rightarrow> py_error + 'b" where
  "bind_err m f = (case m of Inl e \<Rightarrow> Inl e | Inr x \<Rightarrow> f x)"

definition char_upper :: "char \<Rightarrow> char" where
  "char_upper c =
     (let n = (of_char c :: nat) in if 97 \<le> n \<and> n \<le> 122 then char_of (n - 32) else c)"

definition char_lower :: "char \<Rightarrow> char" where
  "char_lower c =
     (let n = (of_char c :: nat) in if 65 \<le> n \<and> n \<le> 90 then char_of (n + 32) else c)"

text \<open>\<open>s.upper()\<close> and \<open>s.lower()\<close>.\<close>

definition py_upper :: "string \<Rightarrow> string" where
  "py_upper s = map char_upper s"

definition py_lower :: "string \<Rightarrow> string" where
  "py_lower s = map char_lower s"

text \<open>\<open>s.endswith(suf)\<close> and \<open>sub in s\<close>.\<close>

definition py_endswith :: "string \<Rightarrow> string \<Rightarrow> bool" where
  "py_endswith s suf = suffix suf s"

definition py_in :: "string \<Rightarrow> string \<Rightarrow> bool" where
  "py_in sub s = sublist sub s"

definition py_startswith :: "string \<Rightarrow> string \<Rightarrow> bool" where
  "py_startswith s pre = prefix pre s"

text \<open>
  \<open>s.replace(old, new)\<close>: every occurrence of \<open>old\<close>, leftmost first and without overlap;
  for an empty \<open>old\<close>, \<open>new\<close> is put before every character and at the end.
\<close>

function py_replace :: "string \<Rightarrow> string \<Rightarrow> string \<Rightarrow> string" where
  "py_replace old new s =
     (if old = [] then new @ concat (map (\<lambda>c. c # new) s)
      else if s = [] then []
      else if prefix old s then new @ py_replace old new (drop (length old) s)
      else hd s # py_replace old new (tl s))"
  by pat_completeness auto
termination
  by (relation "measure (\<lambda>(old, new, s). length s)") auto

declare py_replace.simps [simp del]

text \<open>
  \<open>s.strip()\<close> takes the white space off both ends: among the code points 0 to 255 these
  are 9 to 13, 28 to 32, 133 (next line) and 160 (no-break space).
\<close>

definition py_isspace :: "char \<Rightarrow> bool" where
  "py_isspace c =
     (let n = (of_char c :: nat)
      in (9 \<le> n \<and> n \<le> 13) \<or> (28 \<le> n \<and> n \<le> 32) \<or> n = 133 \<or> n = 160)"

definition py_strip :: "string \<Rightarrow> string" where
  "py_strip s = rev (dropWhile py_isspace (rev (dropWhile py_isspace s)))"

text \<open>\<open>s.rfind(c)\<close> for a single character: the last index of \<open>c\<close>, or \<open>-1\<close>.\<close>

fun rfind_from :: "char \<Rightarrow> string \<Rightarrow> int \<Rightarrow> int \<Rightarrow> int" where
  "rfind_from c [] i found = found"
| "rfind_from c (x # xs) i found = rfind_from c xs (i + 1) (if x = c then i else found)"

definition py_rfind :: "string \<Rightarrow> char \<Rightarrow> int" where
  "py_rfind s c = rfind_from c s 0 (- 1)"

text \<open>\<open>str(i)\<close> and \<open>f"{i:0{width}d}"\<close> for an integer.\<close>

definition digit_char :: "nat \<Rightarrow> char" where
  "digit_char d = char_of (48 + d)"

function dec_nat :: "nat \<Rightarrow> string" where
  "dec_nat n = (if n < 10 then [digit_char n] else dec_nat (n div 10) @ [digit_char (n mod 10)])"
  by pat_completeness auto
termination
  by (relation "measure id") auto

declare dec_nat.simps [simp del]

definition py_str_int :: "int \<Rightarrow> string" where
  "py_str_int i = (if i < 0 then CHR ''-'' # dec_nat (nat (- i)) else dec_nat (nat i))"

definition zero_pad :: "nat \<Rightarrow> string \<Rightarrow> string" where
  "zero_pad width s = replicate (width - length s) (CHR ''0'') @ s"

definition py_format_0d :: "int \<Rightarrow> nat \<Rightarrow> string" where
  "py_format_0d i width =
     (if i < 0 then CHR ''-'' # zero_pad (width - 1) (dec_nat (nat (- i)))
      else zero_pad width (dec_nat (nat i)))"

subsection \<open>\<open>os.path\<close> on POSIX\<close>

text \<open>
  \<^verbatim>\<open>
  def join(a, b):
      if b.startswith('/'): path = b
      elif not a or a.endswith('/'): path = a + b
      else: path = a + '/' + b
  def basename(p):
      i = p.rfind('/') + 1
      return p[i:]
  def dirname(p):
      i = p.rfind('/') + 1
      head = p[:i]
      if head and head != '/' * len(head): head = head.rstrip('/')
      return head
  def splitext(p):
      sepIndex = p.rfind('/'); dotIndex = p.rfind('.')
      if dotIndex > sepIndex:
          filenameIndex = sepIndex + 1
          while filenameIndex < dotIndex:
              if p[filenameIndex] != '.': return p[:dotIndex], p[dotIndex:]
              filenameIndex += 1
      return p, ''
  \<close>
\<close>

definition os_path_join :: "string \<Rightarrow> string \<Rightarrow> string" where
  "os_path_join a b =
     (if py_startswith b ''/'' then b
      else if a = [] \<or> py_endswith a ''/'' then a @ b
      else a @ ''/'' @ b)"

definition os_path_basename :: "string \<Rightarrow> string" where
  "os_path_basename p = drop (nat (py_rfind p (CHR ''/'') + 1)) p"

definition os_path_dirname :: "string \<Rightarrow> string" where
  "os_path_dirname p =
     (let head = take (nat (py_rfind p (CHR ''/'') + 1)) p
      in if head \<noteq> [] \<and> head \<noteq> replicate (length head) (CHR ''/'')
         then rev (dropWhile (\<lambda>c. c = CHR ''/'') (rev head)) else head)"

definition os_path_splitext :: "string \<Rightarrow> string \<times> string" where
  "os_path_splitext p =
     (let sepIndex = py_rfind p (CHR ''/''); dotIndex = py_rfind p (CHR ''.'')
      in if dotIndex > sepIndex \<and>
            list_ex (\<lambda>c. c \<noteq> CHR ''.'')
              (take (nat (dotIndex - (sepIndex + 1))) (drop (nat (sepIndex + 1)) p))
         then (take (nat dotIndex) p, drop (nat dotIndex) p)
         else (p, []))"

section \<open>Datasets and the identity extractor\<close>

text \<open>
  A dataset maps element keywords to elements. The library converts an element when it
  is accessed: the access gives the value, represented by its string form (what \<open>str\<close>
  returns for it), or raises what the conversion raises; \<open>Corrupt e\<close> is an element whose
  conversion raises \<open>e\<close>. \<open>getattr\<close> on a keyword that the dataset does not hold raises
  \<open>AttributeError\<close>. \<open>keyword in dataset\<close> asks whether the element is there and converts
  nothing.
\<close>

datatype element = Value string | Corrupt py_error

type_synonym dataset = "string \<rightharpoonup> element"

definition py_getattr :: "dataset \<Rightarrow> string \<Rightarrow> py_error + string" where
  "py_getattr dataset attribute =
     (case dataset attribute of
        None \<Rightarrow> Inl AttributeError
      | Some (Value v) \<Rightarrow> Inr v
      | Some (Corrupt e) \<Rightarrow> Inl e)"

text \<open>
  \<^verbatim>\<open>
  def get_dicom_attribute(dataset, attribute):
      try:
          return str(getattr(dataset, attribute))
      except AttributeError:
          return 'UNKNOWN'
  \<close>
  Only \<open>AttributeError\<close> is handled; any other exception leaves the function.
\<close>

definition get_dicom_attribute :: "dataset \<Rightarrow> string \<Rightarrow> py_error + string" where
  "get_dicom_attribute dataset attribute =
     (case py_getattr dataset attribute of
        Inr v \<Rightarrow> Inr v
      | Inl AttributeError \<Rightarrow> Inr ''UNKNOWN''
      | Inl e \<Rightarrow> Inl e)"

section \<open>The anonymizer\<close>

text \<open>
  The correlation map is a Python dict (an association list read through \<open>map_of\<close>) or
  \<open>None\<close>. \<open>if id_map\<close> is true for a dict with at least one entry. The module-level set
  \<open>missing_ids\<close> is passed in and returned.
\<close>

type_synonym id_map = "(string \<times> string) list"

definition truthy_id_map :: "id_map option \<Rightarrow> bool" where
  "truthy_id_map id_map = (case id_map of None \<Rightarrow> False | Some m \<Rightarrow> m \<noteq> [])"

definition dict_getitem :: "id_map \<Rightarrow> string \<Rightarrow> py_error + string" where
  "dict_getitem m k = (case map_of m k of None \<Rightarrow> Inl KeyError | Some v \<Rightarrow> Inr v)"

text \<open>
  \<^verbatim>\<open>
  def anonymize_dicom_tags(dataset, id_map=None):
      if 'PatientBirthDate' in dataset:
          dataset.PatientBirthDate = ''
      if 'PatientName' in dataset:
          dataset.PatientName = 'ANONYMIZED'
      if 'PatientID' in dataset and id_map:
          old_id = dataset.PatientID
          if old_id in id_map:
              dataset.PatientID = id_map[old_id]
          else:
              missing_ids.add(old_id)
      return dataset
  \<close>
\<close>

definition anonymize_dicom_tags ::
  "dataset \<Rightarrow> id_map option \<Rightarrow> string set \<Rightarrow> py_error + (dataset \<times> string set)" where
  "anonymize_dicom_tags dataset id_map missing_ids =
     (let ds1 = (if dataset ''PatientBirthDate'' \<noteq> None
                 then dataset(''PatientBirthDate'' \<mapsto> Value []) else dataset);
          ds2 = (if ds1 ''PatientName'' \<noteq> None
                 then ds1(''PatientName'' \<mapsto> Value ''ANONYMIZED'') else ds1)
      in if ds2 ''PatientID'' \<noteq> None \<and> truthy_id_map id_map then
           bind_err (py_getattr ds2 ''PatientID'') (\<lambda>old_id.
             case id_map of
               None \<Rightarrow> Inr (ds2, missing_ids)
             | Some m \<Rightarrow>
                 if map_of m old_id \<noteq> None then
                   bind_err (dict_getitem m old_id) (\<lambda>new_id.
                     Inr (ds2(''PatientID'' \<mapsto> Value new_id), missing_ids))
                 else Inr (ds2, insert old_id missing_ids))
         else Inr (ds2, missing_ids))"

section \<open>Files\<close>

text \<open>
  The state the tools work on: the regular files (path and content, an association list
  read through \<open>map_of\<close>), the paths at which creating or replacing a file is refused, and
  the module-level set \<open>missing_ids\<close>. A file's content is the dataset stored in it: with
  the DICOM preamble and prefix (\<open>Dicom\<close>), or without them (\<open>Headerless\<close>: \<open>pydicom.dcmread\<close>
  raises on it unless it is called with \<open>force=True\<close>), or \<open>Unreadable\<close> when the file
  cannot be read either way. Paths are compared as strings. Directories are implicit: a
  directory exists when a file lies below it.
\<close>

datatype file_content = Dicom dataset | Headerless dataset | Unreadable

record world =
  files :: "(string \<times> file_content) list"
  unwritable :: "string list"
  missing_ids :: "string set"

definition os_path_isdir :: "world \<Rightarrow> string \<Rightarrow> bool" where
  "os_path_isdir w p = list_ex (\<lambda>q. prefix (p @ ''/'') q) (map fst (files w))"

definition os_path_exists :: "world \<Rightarrow> string \<Rightarrow> bool" where
  "os_path_exists w p = list_ex (\<lambda>q. q = p \<or> prefix (p @ ''/'') q) (map fst (files w))"

text \<open>
  \<open>os.makedirs(d, exist_ok=True)\<close> raises when \<open>d\<close> is a regular file or lies below one.
\<close>

definition os_makedirs :: "world \<Rightarrow> string \<Rightarrow> py_error + world" where
  "os_makedirs w d =
     (if map_of (files w) d \<noteq> None then Inl FileExistsError
      else if list_ex (\<lambda>q. prefix (q @ ''/'') d) (map fst (files w)) then Inl NotADirectoryError
      else Inr w)"

text \<open>
  Reading drops the padding at the end of a stored value (blanks and NUL); a value that
  is assigned keeps its blanks until it is written and read again.
\<close>

definition strip_padding :: "string \<Rightarrow> string" where
  "strip_padding v = rev (dropWhile (\<lambda>c. c = CHR '' '' \<or> c = CHR 0x00) (rev v))"

fun read_element :: "element \<Rightarrow> element" where
  "read_element (Value v) = Value (strip_padding v)"
| "read_element (Corrupt e) = Corrupt e"

definition read_elements :: "dataset \<Rightarrow> dataset" where
  "read_elements stored = (\<lambda>keyword. map_option read_element (stored keyword))"

text \<open>\<open>pydicom.dcmread(path)\<close>.\<close>

definition dcmread :: "world \<Rightarrow> string \<Rightarrow> py_error + dataset" where
  "dcmread w path =
     (case map_of (files w) path of
        None \<Rightarrow> Inl FileNotFoundError
      | Some Unreadable \<Rightarrow> Inl InvalidDicomError
      | Some (Headerless stored) \<Rightarrow> Inl InvalidDicomError
      | Some (Dicom stored) \<Rightarrow> Inr (read_elements stored))"

text \<open>
  \<open>pydicom.dcmread(path, force=True)\<close> also reads a file without the preamble. The result
  is the dataset together with whether the preamble was there, which the dataset object
  remembers.
\<close>

definition dcmread_force :: "world \<Rightarrow> string \<Rightarrow> py_error + (bool \<times> dataset)" where
  "dcmread_force w path =
     (case map_of (files w) path of
        None \<Rightarrow> Inl FileNotFoundError
      | Some Unreadable \<Rightarrow> Inl InvalidDicomError
      | Some (Headerless stored) \<Rightarrow> Inr (False, read_elements stored)
      | Some (Dicom stored) \<Rightarrow> Inr (True, read_elements stored))"

definition write_file :: "world \<Rightarrow> string \<Rightarrow> file_content \<Rightarrow> py_error + world" where
  "write_file w path content =
     (if os_path_isdir w path then Inl IsADirectoryError
      else if path \<in> set (unwritable w) then Inl PermissionError
      else Inr (w\<lparr>files := AList.update path content (files w)\<rparr>))"

text \<open>
  \<open>dataset.save_as(path)\<close> writes the dataset as it was read: with the preamble when the
  file it came from had one (\<open>preamble\<close>), without it otherwise.
\<close>

definition save_as :: "bool \<Rightarrow> dataset \<Rightarrow> string \<Rightarrow> world \<Rightarrow> py_error + world" where
  "save_as preamble dataset path w =
     write_file w path (if preamble then Dicom dataset else Headerless dataset)"

text \<open>
  \<open>shutil.copy2(src, dst)\<close>: into \<open>dst\<close> when it is a directory; \<open>SameFileError\<close> when
  both name the same file.
\<close>

definition shutil_copy2 :: "world \<Rightarrow> string \<Rightarrow> string \<Rightarrow> py_error + world" where
  "shutil_copy2 w src dst =
     (let dst = (if os_path_isdir w dst then os_path_join dst (os_path_basename src) else dst)
      in case map_of (files w) src of
           None \<Rightarrow> Inl FileNotFoundError
         | Some content \<Rightarrow> if src = dst then Inl SameFileError else write_file w dst content)"

text \<open>
  \<open>shutil.move(src, dst)\<close>: a rename; into \<open>dst\<close> when it is a directory, refused when
  the name is taken there. Renaming a file to itself changes nothing.
\<close>

definition shutil_move :: "world \<Rightarrow> string \<Rightarrow> string \<Rightarrow> py_error + world" where
  "shutil_move w src dst =
     (if os_path_isdir w dst \<and> os_path_exists w (os_path_join dst (os_path_basename src))
      then Inl ShutilError
      else
        let real_dst = (if os_path_isdir w dst then os_path_join dst (os_path_basename src) else dst)
        in case map_of (files w) src of
             None \<Rightarrow> Inl FileNotFoundError
           | Some content \<Rightarrow>
               if src = real_dst then Inr w
               else case write_file w real_dst content of
                      Inl e \<Rightarrow> Inl e
                    | Inr w1 \<Rightarrow> Inr (w1\<lparr>files := AList.delete src (files w1)\<rparr>))"

text \<open>
  The files \<open>os.walk(src_dir)\<close> reaches, each as \<open>os.path.join(root, file)\<close>, in the order of
  the file table.
\<close>

definition os_walk_files :: "world \<Rightarrow> string \<Rightarrow> string list" where
  "os_walk_files w src_dir =
     (if src_dir = [] then []
      else filter (\<lambda>q. prefix (os_path_join src_dir []) q \<and> q \<noteq> os_path_join src_dir [])
             (map fst (files w)))"

section \<open>The sorting tool\<close>

subsection \<open>Collision resolver\<close>

text \<open>
  \<^verbatim>\<open>
  def generate_unique_filename(directory, filename):
      base_name, extension = os.path.splitext(filename)
      counter = 1
      new_filename = filename
      while os.path.exists(os.path.join(directory, new_filename)):
          new_filename = f"{base_name}_{counter}{extension}"
          counter += 1
      return new_filename
  \<close>
  \<open>numbered_name\<close> is the formatted string of the loop body.
\<close>

definition numbered_name :: "string \<Rightarrow> int \<Rightarrow> string \<Rightarrow> string" where
  "numbered_name base_name counter extension = base_name @ ''_'' @ py_str_int counter @ extension"

function generate_unique_filename_loop ::
  "world \<Rightarrow> string \<Rightarrow> string \<Rightarrow> string \<Rightarrow> int \<Rightarrow> string \<Rightarrow> string" where
  "generate_unique_filename_loop w directory base_name extension counter new_filename =
     (if os_path_exists w (os_path_join directory new_filename)
      then generate_unique_filename_loop w directory base_name extension (counter + 1)
             (numbered_name base_name counter extension)
      else new_filename)"
  by pat_completeness auto

text \<open>
  The loop ends because the numbered names are pairwise different and only finitely many
  paths exist: decimal numerals are read back by \<open>nat_of_dec\<close>.
\<close>

definition digit_val :: "char \<Rightarrow> nat" where
  "digit_val c = of_char c - 48"

definition nat_of_dec :: "string \<Rightarrow> nat" where
  "nat_of_dec s = foldl (\<lambda>a c. 10 * a + digit_val c) 0 s"

lemma digit_val_digit_char: "d < 10 \<Longrightarrow> digit_val (digit_char d) = d"
  by (simp add: digit_val_def digit_char_def)

lemma nat_of_dec_snoc: "nat_of_dec (s @ [c]) = 10 * nat_of_dec s + digit_val c"
  by (simp add: nat_of_dec_def)

lemma nat_of_dec_dec_nat: "nat_of_dec (dec_nat n) = n"
proof (induction n rule: dec_nat.induct)
  case (1 n)
  show ?case
  proof (cases "n < 10")
    case True
    then show ?thesis
      by (subst dec_nat.simps) (simp add: nat_of_dec_def digit_val_digit_char)
  next
    case False
    with 1 have "nat_of_dec (dec_nat (n div 10)) = n div 10" by simp
    with False show ?thesis
      by (subst dec_nat.simps) (simp add: nat_of_dec_snoc digit_val_digit_char)
  qed
qed

lemma dec_nat_inj: "dec_nat m = dec_nat n \<Longrightarrow> m = n"
  by (metis nat_of_dec_dec_nat)

lemma dec_nat_not_empty: "dec_nat n \<noteq> []"
  by (subst dec_nat.simps) simp

lemma dec_nat_hd_not_minus: "hd (dec_nat n) \<noteq> CHR ''-''"
proof (induction n rule: dec_nat.induct)
  case (1 n)
  show ?case
  proof (cases "n < 10")
    case True
    have "of_char (digit_char n) = (48 + n) mod 256"
      by (simp add: digit_char_def)
    with True have "of_char (digit_char n) \<noteq> (of_char (CHR ''-'') :: nat)"
      by simp
    then have "digit_char n \<noteq> CHR ''-''" by metis
    with True show ?thesis
      by (subst dec_nat.simps) simp
  next
    case False
    with 1 have "hd (dec_nat (n div 10)) \<noteq> CHR ''-''" by simp
    with False show ?thesis
      by (subst dec_nat.simps) (simp add: dec_nat_not_empty)
  qed
qed

lemma py_str_int_inj: "py_str_int i = py_str_int j \<Longrightarrow> i = j"
proof -
  assume eq: "py_str_int i = py_str_int j"
  have neg: "k < 0 \<Longrightarrow> hd (py_str_int k) = CHR ''-''" for k
    by (simp add: py_str_int_def)
  have pos: "\<not> k < 0 \<Longrightarrow> hd (py_str_int k) \<noteq> CHR ''-''" for k
    by (simp add: py_str_int_def dec_nat_hd_not_minus)
  show "i = j"
  proof (cases "i < 0")
    case True
    with eq neg pos have "j < 0" by metis
    with True eq have "dec_nat (nat (- i)) = dec_nat (nat (- j))"
      by (simp add: py_str_int_def)
    then have "nat (- i) = nat (- j)" by (rule dec_nat_inj)
    with True \<open>j < 0\<close> show ?thesis by simp
  next
    case False
    with eq neg pos have "\<not> j < 0" by metis
    with False eq have "dec_nat (nat i) = dec_nat (nat j)"
      by (simp add: py_str_int_def)
    then have "nat i = nat j" by (rule dec_nat_inj)
    with False \<open>\<not> j < 0\<close> show ?thesis by simp
  qed
qed

lemma finite_existing_paths: "finite {p. os_path_exists w p}"
proof -
  have "{p. os_path_exists w p} \<subseteq> (\<Union>q \<in> set (map fst (files w)). set (prefixes q))"
    by (auto simp: os_path_exists_def list_ex_iff in_set_prefixes prefix_def)
  then show ?thesis
    by (rule finite_subset) simp
qed

lemma numbered_name_starts:
  "py_startswith (numbered_name base_name c extension) ''/'' \<longleftrightarrow> prefix ''/'' base_name"
  by (cases base_name) (auto simp: numbered_name_def py_startswith_def)

lemma os_path_join_candidate:
  "\<exists>pre. \<forall>c. os_path_join directory (numbered_name base_name c extension) =
      pre @ numbered_name base_name c extension"
proof -
  let ?pre = "if prefix ''/'' base_name then []
              else if directory = [] \<or> py_endswith directory ''/'' then directory
              else directory @ ''/''"
  have "\<forall>c. os_path_join directory (numbered_name base_name c extension) =
      ?pre @ numbered_name base_name c extension"
    by (simp add: os_path_join_def numbered_name_starts)
  then show ?thesis ..
qed

lemma candidate_inj:
  assumes "os_path_join directory (numbered_name base_name c extension) =
           os_path_join directory (numbered_name base_name d extension)"
  shows "c = d"
proof -
  obtain pre where "\<forall>c. os_path_join directory (numbered_name base_name c extension) =
      pre @ numbered_name base_name c extension"
    using os_path_join_candidate by blast
  with assms have "numbered_name base_name c extension = numbered_name base_name d extension"
    by simp
  then have "py_str_int c = py_str_int d"
    by (simp add: numbered_name_def)
  then show ?thesis by (rule py_str_int_inj)
qed

lemma free_candidate_exists:
  "\<exists>d::nat. \<not> os_path_exists w
      (os_path_join directory (numbered_name base_name (c + int d) extension))"
proof (rule ccontr)
  let ?g = "\<lambda>d::nat. os_path_join directory (numbered_name base_name (c + int d) extension)"
  assume "\<not> ?thesis"
  then have sub: "range ?g \<subseteq> {p. os_path_exists w p}" by auto
  have "inj ?g"
  proof (rule injI)
    fix x y :: nat
    assume "?g x = ?g y"
    then have "c + int x = c + int y" by (rule candidate_inj)
    then show "x = y" by simp
  qed
  moreover have "finite (range ?g)"
    using sub finite_existing_paths by (rule finite_subset)
  ultimately have "finite (UNIV :: nat set)"
    by (rule finite_imageD[rotated])
  then show False by simp
qed

definition steps_to_free :: "world \<Rightarrow> string \<Rightarrow> string \<Rightarrow> string \<Rightarrow> int \<Rightarrow> nat" where
  "steps_to_free w directory base_name extension c =
     (LEAST d::nat. \<not> os_path_exists w
        (os_path_join directory (numbered_name base_name (c + int d) extension)))"

lemma steps_to_free_Suc:
  assumes "os_path_exists w (os_path_join directory (numbered_name base_name c extension))"
  shows "steps_to_free w directory base_name extension (c + 1) <
         steps_to_free w directory base_name extension c"
proof -
  let ?P = "\<lambda>c (d::nat). \<not> os_path_exists w
        (os_path_join directory (numbered_name base_name (c + int d) extension))"
  let ?L = "steps_to_free w directory base_name extension c"
  have "?P c ?L"
    unfolding steps_to_free_def using free_candidate_exists by (rule LeastI_ex)
  moreover from this assms have "?L \<noteq> 0"
    by (cases "?L = 0") auto
  ultimately have "?P (c + 1) (?L - 1)"
    by (simp add: algebra_simps of_nat_diff)
  then have "steps_to_free w directory base_name extension (c + 1) \<le> ?L - 1"
    unfolding steps_to_free_def by (rule Least_le)
  with \<open>?L \<noteq> 0\<close> show ?thesis by simp
qed

termination generate_unique_filename_loop
proof (relation "measure (\<lambda>(w, directory, base_name, extension, counter, new_filename).
          if os_path_exists w (os_path_join directory new_filename)
          then Suc (steps_to_free w directory base_name extension counter) else 0)")
  show "wf (measure (\<lambda>(w, directory, base_name, extension, counter, new_filename).
          if os_path_exists w (os_path_join directory new_filename)
          then Suc (steps_to_free w directory base_name extension counter) else 0))"
    by simp
next
  fix w directory base_name extension counter new_filename
  assume "os_path_exists w (os_path_join directory new_filename)"
  then show "((w, directory, base_name, extension, counter + 1,
               numbered_name base_name counter extension),
              (w, directory, base_name, extension, counter, new_filename))
        \<in> measure (\<lambda>(w, directory, base_name, extension, counter, new_filename).
          if os_path_exists w (os_path_join directory new_filename)
          then Suc (steps_to_free w directory base_name extension counter) else 0)"
    using steps_to_free_Suc [of w directory base_name counter extension]
    by auto
qed

declare generate_unique_filename_loop.simps [simp del]

definition generate_unique_filename :: "world \<Rightarrow> string \<Rightarrow> string \<Rightarrow> string" where
  "generate_unique_filename w directory filename =
     (let (base_name, extension) = os_path_splitext filename
      in generate_unique_filename_loop w directory base_name extension 1 filename)"

subsection \<open>Sanitizing the series description\<close>

text \<open>
  \<^verbatim>\<open>
  def sanitize_series_description(description):
      description = description.replace(' ', '_').replace('*', '').replace('.', '_')
      invalid_chars = r'<>:"/\|?*'
      description = re.sub(f'[{re.escape(invalid_chars)}]', '', description)
      return sanitize_filepath(description, platform='auto')
  \<close>
  The regular expression is a character class: \<open>re.sub\<close> deletes every character of
  \<open>invalid_chars\<close>. \<open>sanitize_filepath\<close> belongs to the library \<open>pathvalidate\<close>; it is a
  parameter of every function that calls it.
\<close>

definition invalid_chars :: "string" where
  "invalid_chars =
     [CHR ''<'', CHR ''>'', CHR '':'', CHR 0x22, CHR ''/'', CHR 0x5C, CHR ''|'', CHR ''?'', CHR ''*'']"

definition re_sub_class :: "string \<Rightarrow> string \<Rightarrow> string" where
  "re_sub_class chars s = filter (\<lambda>c. c \<notin> set chars) s"

definition sanitize_series_description :: "(string \<Rightarrow> string) \<Rightarrow> string \<Rightarrow> string" where
  "sanitize_series_description sanitize_filepath description =
     (let description = py_replace ''.'' ''_'' (py_replace ''*'' [] (py_replace '' '' ''_'' description));
          description = re_sub_class invalid_chars description
      in sanitize_filepath description)"

subsection \<open>The per-file pipeline\<close>

text \<open>
  \<^verbatim>\<open>
  def decompress_dataset(dataset):
      try:
          dataset.decompress()
      except Exception as e:
          print(f"Error decompressing dataset: {str(e)}")
      return dataset
  \<close>
  Decompression rewrites the pixel data, which the keyword view does not hold, and its
  failure is handled.
\<close>

definition decompress_dataset :: "dataset \<Rightarrow> dataset" where
  "decompress_dataset dataset = dataset"

text \<open>
  The step shared by the three copying tools:
  \<^verbatim>\<open>
      if anonymize or id_map:
          dataset = anonymize_dicom_tags(dataset, id_map)
  \<close>
\<close>

definition anonymize_step ::
  "bool \<Rightarrow> id_map option \<Rightarrow> dataset \<Rightarrow> string set \<Rightarrow> py_error + (dataset \<times> string set)" where
  "anonymize_step anonymize id_map dataset missing =
     (if anonymize \<or> truthy_id_map id_map then anonymize_dicom_tags dataset id_map missing
      else Inr (dataset, missing))"

definition non_dicom_extensions :: "string list" where
  "non_dicom_extensions = [''.png'', ''.jpeg'', ''.jpg'', ''.gif'', ''.bmp'']"

text \<open>
  \<^verbatim>\<open>
      for attribute in ['PatientID', 'StudyDate', 'SeriesNumber', 'SeriesDescription']:
          value = get_dicom_attribute(dataset, attribute)
          if attribute == 'SeriesDescription':
              value = sanitize_series_description(value)
          pattern = pattern.replace(f'%{attribute}%', value)
  \<close>
\<close>

fun fill_pattern :: "(string \<Rightarrow> string) \<Rightarrow> dataset \<Rightarrow> string list \<Rightarrow> string \<Rightarrow> py_error + string" where
  "fill_pattern sanitize_filepath dataset [] pattern = Inr pattern"
| "fill_pattern sanitize_filepath dataset (attribute # attributes) pattern =
     bind_err (get_dicom_attribute dataset attribute) (\<lambda>value.
       let value = (if attribute = ''SeriesDescription''
                    then sanitize_series_description sanitize_filepath value else value)
       in fill_pattern sanitize_filepath dataset attributes
            (py_replace (''%'' @ attribute @ ''%'') value pattern))"

text \<open>
  How a call of a per-file function ends when it does not raise; each value stands for
  the return taken and the message printed there.
\<close>

datatype outcome =
    SkippedExtension
  | NotADicomFile
  | SkippedSeries
  | SkippedDestinationExists
  | Moved string string
  | Copied string string
  | Saved string

text \<open>
  \<^verbatim>\<open>
  def copy_dicom_image(src_file, dest_base_dir, pattern, anonymize=False, id_map=None, decompress=False):
      non_dicom_extensions = ['.png', '.jpeg', '.jpg', '.gif', '.bmp']
      if any(src_file.lower().endswith(ext) for ext in non_dicom_extensions):
          return
      try:
          dataset = pydicom.dcmread(src_file)
      except:
          print(f'Not a DICOM file: {src_file}')
          return
      if anonymize or id_map:
          dataset = anonymize_dicom_tags(dataset, id_map)
      if decompress:
          dataset = decompress_dataset(dataset)
      for attribute in [...]: ...
      dest_directory = sanitize_filepath(os.path.join(dest_base_dir, pattern), platform='auto')
      os.makedirs(dest_directory, exist_ok=True)
      unique_filename = generate_unique_filename(dest_directory, os.path.basename(src_file))
      dataset.save_as(os.path.join(dest_directory, unique_filename))
  \<close>
\<close>

definition copy_dicom_image ::
  "(string \<Rightarrow> string) \<Rightarrow> string \<Rightarrow> string \<Rightarrow> string \<Rightarrow> bool \<Rightarrow> id_map option \<Rightarrow> bool \<Rightarrow>
   world \<Rightarrow> (py_error + outcome) \<times> world" where
  "copy_dicom_image sanitize_filepath src_file dest_base_dir pattern anonymize id_map decompress w =
     (if list_ex (\<lambda>ext. py_endswith (py_lower src_file) ext) non_dicom_extensions
      then (Inr SkippedExtension, w)
      else case dcmread w src_file of
        Inl e \<Rightarrow> (Inr NotADicomFile, w)
      | Inr dataset \<Rightarrow>
         (case anonymize_step anonymize id_map dataset (missing_ids w) of
            Inl e \<Rightarrow> (Inl e, w)
          | Inr (dataset, missing) \<Rightarrow>
             let w1 = w\<lparr>missing_ids := missing\<rparr>;
                 dataset = (if decompress then decompress_dataset dataset else dataset)
             in case fill_pattern sanitize_filepath dataset
                       [''PatientID'', ''StudyDate'', ''SeriesNumber'', ''SeriesDescription''] pattern of
                  Inl e \<Rightarrow> (Inl e, w1)
                | Inr pattern \<Rightarrow>
                   let dest_directory = sanitize_filepath (os_path_join dest_base_dir pattern)
                   in case os_makedirs w1 dest_directory of
                        Inl e \<Rightarrow> (Inl e, w1)
                      | Inr w2 \<Rightarrow>
                         let unique_filename =
                               generate_unique_filename w2 dest_directory (os_path_basename src_file);
                             dest = os_path_join dest_directory unique_filename
                         in case save_as True dataset dest w2 of
                              Inl e \<Rightarrow> (Inl e, w2)
                            | Inr w3 \<Rightarrow> (Inr (Saved dest), w3)))"

text \<open>
  \<^verbatim>\<open>
  def process_file(file, dest_dir, pattern, anonymize, id_map, decompress):
      copy_dicom_image(file, dest_dir, pattern, anonymize, id_map, decompress)
  \<close>
\<close>

definition process_file_sorting ::
  "(string \<Rightarrow> string) \<Rightarrow> string \<Rightarrow> string \<Rightarrow> string \<Rightarrow> bool \<Rightarrow> id_map option \<Rightarrow> bool \<Rightarrow>
   world \<Rightarrow> (py_error + outcome) \<times> world" where
  "process_file_sorting sanitize_filepath file dest_dir pattern anonymize id_map decompress w =
     copy_dicom_image sanitize_filepath file dest_dir pattern anonymize id_map decompress w"

text \<open>
  \<^verbatim>\<open>
  def copy_directory(src_dir, dest_dir, pattern, anonymize, id_map, decompress):
      all_files = [os.path.join(root, file) for root, _, files in os.walk(src_dir) for file in files]
      num_cores = max(2, multiprocessing.cpu_count() // 2)
      with ProcessPoolExecutor(max_workers=num_cores) as executor:
          futures = [executor.submit(process_file, file, ...) for file in all_files]
          for future in tqdm(as_completed(futures), ...):
              future.result()  # To raise exceptions if any
  \<close>
  Every file is submitted; the model runs the submitted calls one after the other, in
  the order of \<open>all_files\<close>. \<open>future.result()\<close> raises in the caller what the call raised,
  and nothing handles it there: the first such exception leaves \<open>copy_directory\<close>. The
  workers are separate processes, so the caller's \<open>missing_ids\<close> stays as it was.
\<close>

fun submit_all ::
  "(string \<Rightarrow> world \<Rightarrow> (py_error + 'a) \<times> world) \<Rightarrow> string list \<Rightarrow> world \<Rightarrow>
   (py_error + 'a) list \<times> world" where
  "submit_all task [] w = ([], w)"
| "submit_all task (file # all_files) w =
     (let (r, w1) = task file w; (rs, w2) = submit_all task all_files w1 in (r # rs, w2))"

fun future_results :: "(py_error + 'a) list \<Rightarrow> py_error + unit" where
  "future_results [] = Inr ()"
| "future_results (Inl e # futures) = Inl e"
| "future_results (Inr r # futures) = future_results futures"

definition copy_directory_sorting ::
  "(string \<Rightarrow> string) \<Rightarrow> string \<Rightarrow> string \<Rightarrow> string \<Rightarrow> bool \<Rightarrow> id_map option \<Rightarrow> bool \<Rightarrow>
   world \<Rightarrow> (py_error + unit) \<times> world" where
  "copy_directory_sorting sanitize_filepath src_dir dest_dir pattern anonymize id_map decompress w =
     (let all_files = os_walk_files w src_dir;
          (futures, w1) = submit_all
             (\<lambda>file. process_file_sorting sanitize_filepath file dest_dir pattern anonymize id_map decompress)
             all_files w
      in (future_results futures, w1\<lparr>missing_ids := missing_ids w\<rparr>))"

text \<open>
  \<^verbatim>\<open>
  def sort_dicom(input_dir, output_dir, anonymize, id_map, decompress):
      pattern = '%PatientID%/%StudyDate%/%SeriesDescription%'
      if not os.path.exists(output_dir):
          os.makedirs(output_dir)
      copy_directory(input_dir, output_dir, pattern, anonymize, id_map, decompress)
  \<close>
\<close>

definition sort_dicom_sorting ::
  "(string \<Rightarrow> string) \<Rightarrow> string \<Rightarrow> string \<Rightarrow> bool \<Rightarrow> id_map option \<Rightarrow> bool \<Rightarrow>
   world \<Rightarrow> (py_error + unit) \<times> world" where
  "sort_dicom_sorting sanitize_filepath input_dir output_dir anonymize id_map decompress w =
     (let pattern = ''%PatientID%/%StudyDate%/%SeriesDescription%''
      in case (if \<not> os_path_exists w output_dir then os_makedirs w output_dir else Inr w) of
           Inl e \<Rightarrow> (Inl e, w)
         | Inr w1 \<Rightarrow>
             copy_directory_sorting sanitize_filepath input_dir output_dir pattern
               anonymize id_map decompress w1)"

section \<open>The series predicate\<close>

text \<open>
  \<^verbatim>\<open>
  def should_process_series(series_desc, series_num):
      print(...)
      if series_num.endswith('1') and any(sub in series_desc.upper() for sub in ['T1', 'T2', 'FLAIR']):
          return True
      return False
  \<close>
  The debugging output is not part of the model.
\<close>

definition should_process_series :: "string \<Rightarrow> string \<Rightarrow> bool" where
  "should_process_series series_desc series_num =
     (if py_endswith series_num ''1'' \<and>
         list_ex (\<lambda>sub. py_in sub (py_upper series_desc)) [''T1'', ''T2'', ''FLAIR'']
      then True else False)"

section \<open>The filtering tool\<close>

text \<open>
  \<^verbatim>\<open>
      for attribute in ['PatientID', 'StudyDate', 'SeriesNumber', 'SeriesDescription']:
          value = get_dicom_attribute(dataset, attribute)
          pattern = pattern.replace(f'%{attribute}%', value)
  \<close>
\<close>

fun fill_pattern_plain :: "dataset \<Rightarrow> string list \<Rightarrow> string \<Rightarrow> py_error + string" where
  "fill_pattern_plain dataset [] pattern = Inr pattern"
| "fill_pattern_plain dataset (attribute # attributes) pattern =
     bind_err (get_dicom_attribute dataset attribute) (\<lambda>value.
       fill_pattern_plain dataset attributes (py_replace (''%'' @ attribute @ ''%'') value pattern))"

text \<open>
  \<^verbatim>\<open>
  def copy_or_move_dicom_image(src_file, dest_base_dir, pattern, anonymize=False, id_map=None, move=False, force=False):
      non_dicom_extensions = ['.png', '.jpeg', '.jpg', '.gif', '.bmp']
      if any(src_file.lower().endswith(ext) for ext in non_dicom_extensions):
          return
      try:
          dataset = pydicom.dcmread(src_file)
      except:
          print(f'Not a DICOM file: {src_file}')
          return
      if anonymize or id_map:
          dataset = anonymize_dicom_tags(dataset, id_map)
      series_desc = get_dicom_attribute(dataset, 'SeriesDescription')
      series_num = get_dicom_attribute(dataset, 'SeriesNumber')
      if not should_process_series(series_desc, series_num):
          print(f"Skipping file '{src_file}' - Series criteria not met")
          return
      sop_instance_uid = get_dicom_attribute(dataset, 'SOPInstanceUID')
      filename = f"{sop_instance_uid}.dcm"
      for attribute in [...]: ...
      dest_directory = sanitize_filepath(os.path.join(dest_base_dir, pattern), platform='auto')
      os.makedirs(dest_directory, exist_ok=True)
      dest_file_path = os.path.join(dest_directory, filename)
      if not force and os.path.exists(dest_file_path):
          print(f"Skipping file '{src_file}' - Destination file already exists and --force not specified")
          return
      if move:
          shutil.move(src_file, dest_file_path)
          print(f"Moved file '{src_file}' to '{dest_file_path}'")
      else:
          shutil.copy2(src_file, dest_file_path)
          print(f"Copied file '{src_file}' to '{dest_file_path}'")
  \<close>
  \<open>dest_paths_of\<close> is what the function computes from the dataset between the series
  test and the check for an existing destination, \<open>os.makedirs\<close> apart: the pair of
  \<open>dest_directory\<close> and \<open>dest_file_path\<close>.
\<close>

definition dest_paths_of ::
  "(string \<Rightarrow> string) \<Rightarrow> dataset \<Rightarrow> string \<Rightarrow> string \<Rightarrow> py_error + (string \<times> string)" where
  "dest_paths_of sanitize_filepath dataset dest_base_dir pattern =
     bind_err (get_dicom_attribute dataset ''SOPInstanceUID'') (\<lambda>sop_instance_uid.
       let filename = sop_instance_uid @ ''.dcm''
       in bind_err (fill_pattern_plain dataset
                      [''PatientID'', ''StudyDate'', ''SeriesNumber'', ''SeriesDescription''] pattern)
            (\<lambda>pattern.
               let dest_directory = sanitize_filepath (os_path_join dest_base_dir pattern)
               in Inr (dest_directory, os_path_join dest_directory filename)))"

definition copy_or_move_dicom_image ::
  "(string \<Rightarrow> string) \<Rightarrow> string \<Rightarrow> string \<Rightarrow> string \<Rightarrow> bool \<Rightarrow> id_map option \<Rightarrow> bool \<Rightarrow> bool \<Rightarrow>
   world \<Rightarrow> (py_error + outcome) \<times> world" where
  "copy_or_move_dicom_image sanitize_filepath src_file dest_base_dir pattern anonymize id_map
       move force w =
     (if list_ex (\<lambda>ext. py_endswith (py_lower src_file) ext) non_dicom_extensions
      then (Inr SkippedExtension, w)
      else case dcmread w src_file of
        Inl e \<Rightarrow> (Inr NotADicomFile, w)
      | Inr dataset \<Rightarrow>
         (case anonymize_step anonymize id_map dataset (missing_ids w) of
            Inl e \<Rightarrow> (Inl e, w)
          | Inr (dataset, missing) \<Rightarrow>
             let w1 = w\<lparr>missing_ids := missing\<rparr>
             in case get_dicom_attribute dataset ''SeriesDescription'' of
                  Inl e \<Rightarrow> (Inl e, w1)
                | Inr series_desc \<Rightarrow>
                   (case get_dicom_attribute dataset ''SeriesNumber'' of
                      Inl e \<Rightarrow> (Inl e, w1)
                    | Inr series_num \<Rightarrow>
                       if \<not> should_process_series series_desc series_num
                       then (Inr SkippedSeries, w1)
                       else case dest_paths_of sanitize_filepath dataset dest_base_dir pattern of
                              Inl e \<Rightarrow> (Inl e, w1)
                            | Inr (dest_directory, dest_file_path) \<Rightarrow>
                               (case os_makedirs w1 dest_directory of
                                  Inl e \<Rightarrow> (Inl e, w1)
                                | Inr w2 \<Rightarrow>
                                   if \<not> force \<and> os_path_exists w2 dest_file_path
                                   then (Inr SkippedDestinationExists, w2)
                                   else if move
                                   then (case shutil_move w2 src_file dest_file_path of
                                           Inl e \<Rightarrow> (Inl e, w2)
                                         | Inr w3 \<Rightarrow> (Inr (Moved src_file dest_file_path), w3))
                                   else (case shutil_copy2 w2 src_file dest_file_path of
                                           Inl e \<Rightarrow> (Inl e, w2)
                                         | Inr w3 \<Rightarrow> (Inr (Copied src_file dest_file_path), w3))))))"

text \<open>
  \<^verbatim>\<open>
  def copy_directory(src_dir, dest_dir, pattern, anonymize, id_map, move, force):
      all_files = [os.path.join(root, file) for root, _, files in os.walk(src_dir) for file in files]
      for file in tqdm(all_files, desc="Processing", unit="file"):
          copy_or_move_dicom_image(file, dest_dir, pattern, anonymize, id_map, move, force)
  \<close>
  An exception of a call ends the loop.
\<close>

fun for_each_file ::
  "(string \<Rightarrow> world \<Rightarrow> (py_error + 'a) \<times> world) \<Rightarrow> string list \<Rightarrow> world \<Rightarrow>
   (py_error + unit) \<times> world" where
  "for_each_file body [] w = (Inr (), w)"
| "for_each_file body (file # all_files) w =
     (case body file w of
        (Inl e, w1) \<Rightarrow> (Inl e, w1)
      | (Inr r, w1) \<Rightarrow> for_each_file body all_files w1)"

definition copy_directory_filtering ::
  "(string \<Rightarrow> string) \<Rightarrow> string \<Rightarrow> string \<Rightarrow> string \<Rightarrow> bool \<Rightarrow> id_map option \<Rightarrow> bool \<Rightarrow> bool \<Rightarrow>
   world \<Rightarrow> (py_error + unit) \<times> world" where
  "copy_directory_filtering sanitize_filepath src_dir dest_dir pattern anonymize id_map move force w =
     for_each_file
       (\<lambda>file. copy_or_move_dicom_image sanitize_filepath file dest_dir pattern anonymize id_map
                  move force)
       (os_walk_files w src_dir) w"

section \<open>The protocol-name tool\<close>

text \<open>
  \<^verbatim>\<open>
  def process_file(file_path):
      try:
          ds = pydicom.dcmread(file_path, force=True)
      except Exception as e:
          logging.error(f"Error reading file '{file_path}': {e}")
          return file_path, False
      try:
          parent_folder = os.path.basename(os.path.dirname(file_path))
          current_protocol = getattr(ds, "ProtocolName", "")
          new_protocol = f"{parent_folder}".strip() if current_protocol else parent_folder
          ds.ProtocolName = new_protocol
          ds.save_as(file_path)
          return file_path, True
      except Exception as e:
          logging.error(f"Error processing file '{file_path}': {e}")
          return file_path, False
  \<close>
  Every constructor of \<open>py_error\<close> is a subclass of \<open>Exception\<close>, so both handlers take
  every exception of the model. \<open>getattr\<close> with a default gives the default where the
  access raises \<open>AttributeError\<close>.
\<close>

definition py_getattr_default :: "dataset \<Rightarrow> string \<Rightarrow> string \<Rightarrow> py_error + string" where
  "py_getattr_default dataset attribute default' =
     (case py_getattr dataset attribute of
        Inr v \<Rightarrow> Inr v
      | Inl AttributeError \<Rightarrow> Inr default'
      | Inl e \<Rightarrow> Inl e)"

definition process_file_protocol ::
  "string \<Rightarrow> world \<Rightarrow> (py_error + string \<times> bool) \<times> world" where
  "process_file_protocol file_path w =
     (case dcmread_force w file_path of
        Inl e \<Rightarrow> (Inr (file_path, False), w)
      | Inr (preamble, ds) \<Rightarrow>
         let parent_folder = os_path_basename (os_path_dirname file_path)
         in case py_getattr_default ds ''ProtocolName'' [] of
              Inl e \<Rightarrow> (Inr (file_path, False), w)
            | Inr current_protocol \<Rightarrow>
               let new_protocol =
                     (if current_protocol \<noteq> [] then py_strip parent_folder else parent_folder);
                   ds = ds(''ProtocolName'' \<mapsto> Value new_protocol)
               in case save_as preamble ds file_path w of
                    Inl e \<Rightarrow> (Inr (file_path, False), w)
                  | Inr w1 \<Rightarrow> (Inr (file_path, True), w1))"

text \<open>
  \<^verbatim>\<open>
  def main():
      ...
      all_files = []
      for dirpath, _, filenames in os.walk(args.dicom_folder):
          for filename in filenames:
              all_files.append(os.path.join(dirpath, filename))
      total_files = len(all_files)
      if total_files == 0:
          print("No files found in the specified folder.")
          return
      success_count = 0
      failure_count = 0
      with multiprocessing.Pool(processes=multiprocessing.cpu_count()) as pool:
          results = list(tqdm(pool.imap_unordered(process_file, all_files), total=total_files))
      for _, success in results:
          if success: success_count += 1
          else: failure_count += 1
      print(f"\nProcessing completed. Successes: {success_count}, Failures: {failure_count}")
  \<close>
  The pool runs one call per file, each on a file of its own; the model runs them in the
  order of \<open>all_files\<close>, and \<open>pool_results\<close> is the list the pool hands back, or the first
  exception a call raised. The result of \<open>main_protocol\<close> is the pair of counts it prints,
  \<open>None\<close> on the early return.
\<close>

fun pool_results :: "(py_error + 'a) list \<Rightarrow> py_error + 'a list" where
  "pool_results [] = Inr []"
| "pool_results (Inl e # rs) = Inl e"
| "pool_results (Inr r # rs) = bind_err (pool_results rs) (\<lambda>xs. Inr (r # xs))"

fun tally :: "(string \<times> bool) list \<Rightarrow> nat \<times> nat \<Rightarrow> nat \<times> nat" where
  "tally [] (success_count, failure_count) = (success_count, failure_count)"
| "tally ((p, success) # results) (success_count, failure_count) =
     (if success then tally results (success_count + 1, failure_count)
      else tally results (success_count, failure_count + 1))"

definition main_protocol :: "string \<Rightarrow> world \<Rightarrow> (py_error + (nat \<times> nat) option) \<times> world" where
  "main_protocol dicom_folder w =
     (let all_files = os_walk_files w dicom_folder;
          total_files = length all_files
      in if total_files = 0 then (Inr None, w)
         else let (rs, w1) = submit_all process_file_protocol all_files w
              in case pool_results rs of
                   Inl e \<Rightarrow> (Inl e, w1)
                 | Inr results \<Rightarrow> (Inr (Some (tally results (0, 0))), w1))"

section \<open>The counter registry (directory-index tool)\<close>

text \<open>
  The module-level dicts \<open>date_counter\<close> and \<open>sequence_counter\<close>, both empty when the
  module is loaded. A dict is an association list with one entry per key, in insertion
  order: \<open>key in d\<close> is \<open>map_of d key \<noteq> None\<close>, \<open>d[key] = v\<close> is \<open>AList.update\<close>, \<open>len(d)\<close>
  is the length.
  \<^verbatim>\<open>
  def format_counter(counter, prefix, length):
      return f"{prefix}{counter:0{length}d}"

  def get_date_id(patient_id, study_date):
      key = (patient_id, study_date)
      if key not in date_counter:
          date_counter[key] = len(date_counter) + 1
      return format_counter(date_counter[key], 'DAT', 4)

  def get_sequence_id(patient_id, study_date, series_number):
      key = (patient_id, study_date, series_number)
      if key not in sequence_counter:
          sequence_counter[key] = len(sequence_counter) + 1
      return format_counter(sequence_counter[key], 'SEQ', 4)
  \<close>
\<close>

record registry =
  date_counter :: "((string \<times> string) \<times> int) list"
  sequence_counter :: "((string \<times> string \<times> string) \<times> int) list"

definition initial_registry :: registry where
  "initial_registry = \<lparr>date_counter = [], sequence_counter = []\<rparr>"

definition format_counter :: "int \<Rightarrow> string \<Rightarrow> nat \<Rightarrow> string" where
  "format_counter counter prefix' length' = prefix' @ py_format_0d counter length'"

definition get_date_id :: "string \<Rightarrow> string \<Rightarrow> registry \<Rightarrow> (py_error + string) \<times> registry" where
  "get_date_id patient_id study_date r =
     (let key = (patient_id, study_date);
          r1 = (if map_of (date_counter r) key = None
                then r\<lparr>date_counter :=
                        AList.update key (int (length (date_counter r)) + 1) (date_counter r)\<rparr>
                else r)
      in case map_of (date_counter r1) key of
           None \<Rightarrow> (Inl KeyError, r1)
         | Some counter \<Rightarrow> (Inr (format_counter counter ''DAT'' 4), r1))"

definition get_sequence_id ::
  "string \<Rightarrow> string \<Rightarrow> string \<Rightarrow> registry \<Rightarrow> (py_error + string) \<times> registry" where
  "get_sequence_id patient_id study_date series_number r =
     (let key = (patient_id, study_date, series_number);
          r1 = (if map_of (sequence_counter r) key = None
                then r\<lparr>sequence_counter :=
                        AList.update key (int (length (sequence_counter r)) + 1) (sequence_counter r)\<rparr>
                else r)
      in case map_of (sequence_counter r1) key of
           None \<Rightarrow> (Inl KeyError, r1)
         | Some counter \<Rightarrow> (Inr (format_counter counter ''SEQ'' 4), r1))"

section \<open>Notions used in the statements\<close>


text \<open>The characters that \<open>sanitize_series_description\<close> replaces or deletes before it calls the library.\<close>

definition rewritten_chars :: "string" where
  "rewritten_chars = CHR '' '' # CHR ''.'' # invalid_chars"

text \<open>The part of \<open>sanitize_series_description\<close> before the library call.\<close>

definition pre_clean :: "string \<Rightarrow> string" where
  "pre_clean description =
     re_sub_class invalid_chars
       (py_replace ''.'' ''_'' (py_replace ''*'' [] (py_replace '' '' ''_'' description)))"

text \<open>A sample sanitizer, used where a statement is evaluated: it deletes the control characters.\<close>

definition strip_control :: "string \<Rightarrow> string" where
  "strip_control s = filter (\<lambda>c. (of_char c :: nat) \<ge> 32) s"

text \<open>A sample dataset and a sample state of the files, used where a statement is evaluated.\<close>

definition example_dataset :: dataset where
  "example_dataset =
     [''PatientID'' \<mapsto> Value ''P1'', ''StudyDate'' \<mapsto> Value ''20200101'',
      ''SeriesNumber'' \<mapsto> Value ''11'', ''SeriesDescription'' \<mapsto> Value ''T2_FLAIR'',
      ''SOPInstanceUID'' \<mapsto> Value ''1.2.3'']"

definition example_world :: world where
  "example_world =
     \<lparr>files = [(''in/a.dcm'', Dicom example_dataset), (''out/P1/T2_FLAIR/1.2.3.dcm'', Unreadable)],
      unwritable = [], missing_ids = {}\<rparr>"


text \<open>A dataset whose SeriesNumber cannot be converted.\<close>

definition corrupt_dataset :: dataset where
  "corrupt_dataset =
     [''PatientID'' \<mapsto> Value ''A'', ''SeriesNumber'' \<mapsto> Corrupt BytesLengthException]"

text \<open>
  A dataset with a stored ProtocolName and one without, and the state in which one file
  lies in a folder whose name starts with a blank.
\<close>

definition named_dataset :: dataset where
  "named_dataset = [''ProtocolName'' \<mapsto> Value ''localizer'']"

definition unnamed_dataset :: dataset where
  "unnamed_dataset = Map.empty"

definition folder_world :: "dataset \<Rightarrow> world" where
  "folder_world dataset =
     \<lparr>files = [(''/data/ T1/a.dcm'', Dicom dataset)], unwritable = [], missing_ids = {}\<rparr>"

text \<open>
  The ProtocolName element that a file holds after \<open>process_file\<close> of the protocol-name
  tool ran on it.
\<close>

definition protocol_name_written :: "string \<Rightarrow> world \<Rightarrow> element option" where
  "protocol_name_written file_path w =
     (case map_of (files (snd (process_file_protocol file_path w))) file_path of
        None \<Rightarrow> None
      | Some Unreadable \<Rightarrow> None
      | Some (Headerless stored) \<Rightarrow> stored ''ProtocolName''
      | Some (Dicom stored) \<Rightarrow> stored ''ProtocolName'')"

text \<open>A state of the files in which a regular file stands where the sorting tool needs a directory.\<close>

definition blocked_world :: world where
  "blocked_world =
     \<lparr>files = [(''in/a.dcm'', Dicom [''PatientID'' \<mapsto> Value ''P1'', ''StudyDate'' \<mapsto> Value ''20200101'',
                                     ''SeriesDescription'' \<mapsto> Value ''T1 AX'']),
               (''out/P1/20200101/T1_AX'', Unreadable)],
      unwritable = [], missing_ids = {}\<rparr>"

text \<open>
  A folder with a DICOM file, a file without the preamble, a write-protected file, a
  file whose ProtocolName cannot be converted and a file that cannot be read.
\<close>

definition mixed_world :: world where
  "mixed_world =
     \<lparr>files = [(''in/T1/a.dcm'', Dicom [''PatientID'' \<mapsto> Value ''P1'']),
               (''in/T1/notes.txt'', Headerless Map.empty),
               (''in/T2/b.dcm'', Dicom [''ProtocolName'' \<mapsto> Value ''x'']),
               (''in/T2/c.dcm'', Dicom [''ProtocolName'' \<mapsto> Corrupt BytesLengthException]),
               (''in/T2/d.dcm'', Unreadable)],
      unwritable = [''in/T2/b.dcm''], missing_ids = {}\<rparr>"

text \<open>
  A query to the counter registry, and a run of queries against it: \<open>ask_all\<close> lists the
  tokens returned, in order, and \<open>registry_after\<close> is the registry the run leaves.
\<close>

datatype query = DateQuery string string | SequenceQuery string string string

fun ask :: "query \<Rightarrow> registry \<Rightarrow> (py_error + string) \<times> registry" where
  "ask (DateQuery patient_id study_date) r = get_date_id patient_id study_date r"
| "ask (SequenceQuery patient_id study_date series_number) r =
     get_sequence_id patient_id study_date series_number r"

fun ask_all :: "query list \<Rightarrow> registry \<Rightarrow> (py_error + string) list" where
  "ask_all [] r = []"
| "ask_all (q # qs) r = fst (ask q r) # ask_all qs (snd (ask q r))"

fun registry_after :: "query list \<Rightarrow> registry \<Rightarrow> registry" where
  "registry_after [] r = r"
| "registry_after (q # qs) r = registry_after qs (snd (ask q r))"

text \<open>
  Whether two queries go to the same dict, and the prefix of the tokens of a query.
\<close>

fun same_registry :: "query \<Rightarrow> query \<Rightarrow> bool" where
  "same_registry (DateQuery p d) (DateQuery p' d') = True"
| "same_registry (SequenceQuery p d s) (SequenceQuery p' d' s') = True"
| "same_registry q q' = False"

fun token_prefix :: "query \<Rightarrow> string" where
  "token_prefix (DateQuery p d) = ''DAT''"
| "token_prefix (SequenceQuery p d s) = ''SEQ''"

text \<open>
  The look-up-or-insert step on one dict, and the dicts it can produce: distinct keys,
  numbered \<open>1, 2, ...\<close> in insertion order.
\<close>

definition assign :: "'k \<Rightarrow> ('k \<times> int) list \<Rightarrow> ('k \<times> int) list" where
  "assign k d = (if map_of d k = None then AList.update k (int (length d) + 1) d else d)"

definition numbered :: "('k \<times> int) list \<Rightarrow> bool" where
  "numbered d \<longleftrightarrow> distinct (map fst d) \<and> (\<forall>i<length d. snd (d ! i) = int i + 1)"

text \<open>
  The counter stored for a query, the size of its dict, and the counter a query is answered with.
\<close>

fun stored :: "registry \<Rightarrow> query \<Rightarrow> int option" where
  "stored r (DateQuery p d) = map_of (date_counter r) (p, d)"
| "stored r (SequenceQuery p d s) = map_of (sequence_counter r) (p, d, s)"

fun entries :: "registry \<Rightarrow> query \<Rightarrow> nat" where
  "entries r (DateQuery p d) = length (date_counter r)"
| "entries r (SequenceQuery p d s) = length (sequence_counter r)"

definition reg_inv :: "registry \<Rightarrow> bool" where
  "reg_inv r \<longleftrightarrow> numbered (date_counter r) \<and> numbered (sequence_counter r)"

definition new_value :: "registry \<Rightarrow> query \<Rightarrow> int" where
  "new_value r q = (case stored r q of None \<Rightarrow> int (entries r q) + 1 | Some v \<Rightarrow> v)"

text \<open>
  A sample run of queries.
\<close>

definition example_queries :: "query list" where
  "example_queries =
     [DateQuery ''P1'' ''20200101'', SequenceQuery ''P1'' ''20200101'' ''3'',
      DateQuery ''P2'' ''20200101'', DateQuery ''P1'' ''20200101'',
      SequenceQuery ''P1'' ''20200101'' ''4'']"

section \<open>Properties\<close>

subsection \<open>Claim C1: the counter registry\<close>

lemma update_absent: "map_of d k = None \<Longrightarrow> AList.update k v d = d @ [(k, v)]"
  by (induction d) (auto split: if_splits)

lemma assign_absent: "map_of d k = None \<Longrightarrow> assign k d = d @ [(k, int (length d) + 1)]"
  by (simp add: assign_def update_absent)

lemma assign_present: "map_of d k = Some v \<Longrightarrow> assign k d = d"
  by (simp add: assign_def)

lemma numbered_assign:
  assumes "numbered d"
  shows "numbered (assign k d)"
proof (cases "map_of d k")
  case None
  then have notin: "k \<notin> fst ` set d"
    by (simp add: map_of_eq_None_iff)
  from assms notin have "distinct (map fst (d @ [(k, int (length d) + 1)]))"
    by (simp add: numbered_def)
  moreover from assms have "\<forall>i<length (d @ [(k, int (length d) + 1)]).
      snd ((d @ [(k, int (length d) + 1)]) ! i) = int i + 1"
    by (auto simp: numbered_def nth_append less_Suc_eq)
  ultimately show ?thesis
    using None by (simp add: assign_absent numbered_def)
next
  case (Some v)
  with assms show ?thesis by (simp add: assign_present)
qed

lemma map_of_assign:
  "map_of (assign k d) =
     (map_of d)(k \<mapsto> (case map_of d k of None \<Rightarrow> int (length d) + 1 | Some v \<Rightarrow> v))"
proof (cases "map_of d k")
  case None
  then show ?thesis
    by (simp add: assign_def update_conv')
next
  case (Some v)
  then show ?thesis
    by (auto simp: assign_present)
qed

lemma length_assign:
  "length (assign k d) = (if map_of d k = None then Suc (length d) else length d)"
  by (cases "map_of d k") (auto simp: assign_absent assign_present)

lemma numbered_value:
  assumes "numbered d" and "map_of d k = Some v"
  shows "\<exists>i<length d. d ! i = (k, v) \<and> v = int i + 1"
proof -
  from assms(2) have "(k, v) \<in> set d" by (rule map_of_SomeD)
  then obtain i where i: "i < length d" "d ! i = (k, v)"
    by (auto simp: in_set_conv_nth)
  with assms(1) have "v = int i + 1"
    by (auto simp: numbered_def)
  with i show ?thesis by blast
qed

lemma numbered_positive: "numbered d \<Longrightarrow> map_of d k = Some v \<Longrightarrow> 0 \<le> v"
  using numbered_value by fastforce

lemma numbered_inj:
  assumes "numbered d" and "map_of d k = Some v" and "map_of d k' = Some v"
  shows "k = k'"
proof -
  from numbered_value [OF assms(1,2)] obtain i where i: "i < length d" "d ! i = (k, v)" "v = int i + 1"
    by blast
  from numbered_value [OF assms(1,3)] obtain j where j: "j < length d" "d ! j = (k', v)" "v = int j + 1"
    by blast
  from i(3) j(3) have "i = j" by simp
  with i(2) j(2) show ?thesis by simp
qed

lemma get_date_id_assign:
  "get_date_id p d r =
     (case map_of (assign (p, d) (date_counter r)) (p, d) of
        None \<Rightarrow> Inl KeyError
      | Some counter \<Rightarrow> Inr (format_counter counter ''DAT'' 4),
      r\<lparr>date_counter := assign (p, d) (date_counter r)\<rparr>)"
  by (simp add: get_date_id_def assign_def Let_def split: option.splits)

lemma get_sequence_id_assign:
  "get_sequence_id p d s r =
     (case map_of (assign (p, d, s) (sequence_counter r)) (p, d, s) of
        None \<Rightarrow> Inl KeyError
      | Some counter \<Rightarrow> Inr (format_counter counter ''SEQ'' 4),
      r\<lparr>sequence_counter := assign (p, d, s) (sequence_counter r)\<rparr>)"
  by (simp add: get_sequence_id_def assign_def Let_def split: option.splits)

lemma ask_token: "fst (ask q r) = Inr (format_counter (new_value r q) (token_prefix q) 4)"
  by (cases q)
     (simp_all add: get_date_id_assign get_sequence_id_assign map_of_assign new_value_def
        split: option.splits)

lemma ask_stored: "stored (snd (ask q r)) = (stored r)(q \<mapsto> new_value r q)"
proof
  fix q'
  show "stored (snd (ask q r)) q' = ((stored r)(q \<mapsto> new_value r q)) q'"
    by (cases q; cases q')
       (auto simp: get_date_id_assign get_sequence_id_assign map_of_assign new_value_def
          split: option.splits)
qed

lemma ask_entries:
  "entries (snd (ask q r)) q' =
     (if stored r q = None \<and> same_registry q q' then Suc (entries r q') else entries r q')"
  by (cases q; cases q')
     (simp_all add: get_date_id_assign get_sequence_id_assign length_assign)

lemma ask_reg_inv: "reg_inv r \<Longrightarrow> reg_inv (snd (ask q r))"
  by (cases q)
     (simp_all add: reg_inv_def get_date_id_assign get_sequence_id_assign numbered_assign)

lemma stored_inj:
  assumes "reg_inv r" and "stored r q = Some v" and "stored r q' = Some v" and "same_registry q q'"
  shows "q = q'"
  using assms
  by (cases q; cases q') (auto simp: reg_inv_def dest: numbered_inj)

lemma stored_nonneg: "reg_inv r \<Longrightarrow> stored r q = Some v \<Longrightarrow> 0 \<le> v"
  by (cases q) (auto simp: reg_inv_def dest: numbered_positive)

lemma registry_after_snoc: "registry_after (qs @ [q]) r = snd (ask q (registry_after qs r))"
  by (induction qs arbitrary: r) simp_all

lemma ask_all_snoc: "ask_all (qs @ [q]) r = ask_all qs r @ [fst (ask q (registry_after qs r))]"
  by (induction qs arbitrary: r) simp_all

lemma length_ask_all: "length (ask_all qs r) = length qs"
  by (induction qs arbitrary: r) simp_all

lemma nat_of_dec_zero_pad: "nat_of_dec (zero_pad width s) = nat_of_dec s"
proof -
  have "foldl (\<lambda>a c. 10 * a + digit_val c) 0 (replicate k (CHR ''0'')) = 0" for k
    by (induction k) (simp_all add: digit_val_def)
  then show ?thesis
    by (simp add: nat_of_dec_def zero_pad_def)
qed

lemma format_counter_inj:
  assumes "0 \<le> v" and "0 \<le> v'" and "format_counter v p width = format_counter v' p width"
  shows "v = v'"
proof -
  from assms have "zero_pad width (dec_nat (nat v)) = zero_pad width (dec_nat (nat v'))"
    by (simp add: format_counter_def py_format_0d_def)
  then have "nat_of_dec (zero_pad width (dec_nat (nat v))) = nat_of_dec (zero_pad width (dec_nat (nat v')))"
    by simp
  then have "nat v = nat v'"
    by (simp add: nat_of_dec_zero_pad nat_of_dec_dec_nat)
  with assms(1,2) show ?thesis by simp
qed

lemma format_counter_prefix:
  "format_counter v ''DAT'' width \<noteq> format_counter v' ''SEQ'' width'"
  by (simp add: format_counter_def)

lemma token_eq_iff:
  assumes "reg_inv r" and "stored r q = Some v" and "stored r q' = Some v'"
  shows "format_counter v (token_prefix q) 4 = format_counter v' (token_prefix q') 4 \<longleftrightarrow> q = q'"
proof
  assume "q = q'"
  with assms show "format_counter v (token_prefix q) 4 = format_counter v' (token_prefix q') 4"
    by simp
next
  assume eq: "format_counter v (token_prefix q) 4 = format_counter v' (token_prefix q') 4"
  have same: "same_registry q q'"
  proof (rule ccontr)
    assume "\<not> same_registry q q'"
    then have "(token_prefix q = ''DAT'' \<and> token_prefix q' = ''SEQ'')
             \<or> (token_prefix q = ''SEQ'' \<and> token_prefix q' = ''DAT'')"
      by (cases q; cases q') simp_all
    with eq format_counter_prefix show False by metis
  qed
  then have "token_prefix q = token_prefix q'"
    by (cases q; cases q') simp_all
  moreover from assms have "0 \<le> v" "0 \<le> v'"
    by (auto dest: stored_nonneg)
  ultimately have "v = v'"
    using eq format_counter_inj by metis
  with assms same show "q = q'"
    by (auto dest: stored_inj)
qed

lemma reg_inv_initial: "reg_inv initial_registry"
  by (simp add: reg_inv_def initial_registry_def numbered_def)

lemma reg_inv_after: "reg_inv (registry_after qs initial_registry)"
  by (induction qs rule: rev_induct) (simp_all add: reg_inv_initial registry_after_snoc ask_reg_inv)

lemma stored_after: "stored (registry_after qs initial_registry) q \<noteq> None \<longleftrightarrow> q \<in> set qs"
proof (induction qs rule: rev_induct)
  case Nil
  show ?case by (cases q) (simp_all add: initial_registry_def)
next
  case (snoc q0 qs)
  then show ?case
    by (auto simp: registry_after_snoc ask_stored)
qed

lemma entries_after:
  "entries (registry_after qs initial_registry) q = card {q' \<in> set qs. same_registry q' q}"
proof (induction qs rule: rev_induct)
  case Nil
  show ?case by (cases q) (simp_all add: initial_registry_def)
next
  case (snoc q0 qs)
  let ?R = "registry_after qs initial_registry"
  show ?case
  proof (cases "q0 \<notin> set qs \<and> same_registry q0 q")
    case True
    then have "stored ?R q0 = None" using stored_after [of qs q0] by simp
    moreover from True have "{q' \<in> set (qs @ [q0]). same_registry q' q} =
        insert q0 {q' \<in> set qs. same_registry q' q}"
      by auto
    moreover from True have "q0 \<notin> {q' \<in> set qs. same_registry q' q}" by simp
    ultimately show ?thesis
      using True snoc by (simp add: registry_after_snoc ask_entries)
  next
    case False
    then have "stored ?R q0 \<noteq> None \<or> \<not> same_registry q0 q"
      using stored_after [of qs q0] by auto
    moreover from False have "{q' \<in> set (qs @ [q0]). same_registry q' q} =
        {q' \<in> set qs. same_registry q' q}"
      by auto
    ultimately show ?thesis
      using snoc by (auto simp: registry_after_snoc ask_entries)
  qed
qed

lemma tokens_after:
  "\<forall>i<length qs. \<exists>v.
      stored (registry_after qs initial_registry) (qs ! i) = Some v
    \<and> ask_all qs initial_registry ! i = Inr (format_counter v (token_prefix (qs ! i)) 4)
    \<and> (qs ! i \<notin> set (take i qs) \<longrightarrow>
         v = int (card {q' \<in> set (take i qs). same_registry q' (qs ! i)}) + 1)"
proof (induction qs rule: rev_induct)
  case Nil
  show ?case by simp
next
  case (snoc q0 qs)
  let ?R = "registry_after qs initial_registry"
  let ?R' = "registry_after (qs @ [q0]) initial_registry"
  have st: "stored ?R' = (stored ?R)(q0 \<mapsto> new_value ?R q0)"
    by (simp add: registry_after_snoc ask_stored)
  have tk: "ask_all (qs @ [q0]) initial_registry =
      ask_all qs initial_registry @ [Inr (format_counter (new_value ?R q0) (token_prefix q0) 4)]"
    by (simp add: ask_all_snoc ask_token)
  show ?case
  proof (intro allI impI)
    fix i assume "i < length (qs @ [q0])"
    then consider (old) "i < length qs" | (new) "i = length qs" by fastforce
    then show "\<exists>v. stored ?R' ((qs @ [q0]) ! i) = Some v
        \<and> ask_all (qs @ [q0]) initial_registry ! i =
            Inr (format_counter v (token_prefix ((qs @ [q0]) ! i)) 4)
        \<and> ((qs @ [q0]) ! i \<notin> set (take i (qs @ [q0])) \<longrightarrow>
             v = int (card {q' \<in> set (take i (qs @ [q0])). same_registry q' ((qs @ [q0]) ! i)}) + 1)"
    proof cases
      case old
      with snoc obtain v where v: "stored ?R (qs ! i) = Some v"
        "ask_all qs initial_registry ! i = Inr (format_counter v (token_prefix (qs ! i)) 4)"
        "qs ! i \<notin> set (take i qs) \<longrightarrow>
           v = int (card {q' \<in> set (take i qs). same_registry q' (qs ! i)}) + 1"
        by blast
      have "stored ?R' (qs ! i) = Some v"
        using v(1) by (auto simp: st new_value_def)
      with old v(2,3) show ?thesis
        by (simp add: tk nth_append length_ask_all)
    next
      case new
      have a: "stored ?R' q0 = Some (new_value ?R q0)"
        by (simp add: st)
      have b: "q0 \<notin> set qs \<longrightarrow>
          new_value ?R q0 = int (card {q' \<in> set qs. same_registry q' q0}) + 1"
      proof
        assume "q0 \<notin> set qs"
        then have "stored ?R q0 = None" using stored_after [of qs q0] by simp
        then show "new_value ?R q0 = int (card {q' \<in> set qs. same_registry q' q0}) + 1"
          by (simp add: new_value_def entries_after)
      qed
      from new a b show ?thesis
        by (simp add: tk nth_append length_ask_all)
    qed
  qed
qed

text \<open>
  Claim C1. For every sequence of queries to the registry, starting from the empty
  registry: each query is answered with a token (no look-up fails); two queries receive
  the same token exactly when they have the same key, whether they ask for a date id or
  a sequence id; and the query that brings the \<open>n\<close>-th distinct key to its dict is answered
  with the counter \<open>n\<close>, formatted with the dict's prefix and four digits.
\<close>

theorem counter_registry_tokens:
  "length (ask_all qs initial_registry) = length qs
   \<and> (\<forall>i<length qs. \<forall>j<length qs.
        (ask_all qs initial_registry ! i = ask_all qs initial_registry ! j \<longleftrightarrow> qs ! i = qs ! j))
   \<and> (\<forall>i<length qs. qs ! i \<notin> set (take i qs) \<longrightarrow>
        ask_all qs initial_registry ! i =
          Inr (format_counter (int (card {q \<in> set (take i qs). same_registry q (qs ! i)}) + 1)
                 (token_prefix (qs ! i)) 4))
   \<and> (\<forall>i<length qs. \<exists>token. ask_all qs initial_registry ! i = Inr token)"
proof (intro conjI allI impI)
  show "length (ask_all qs initial_registry) = length qs"
    by (rule length_ask_all)
next
  fix i j assume i: "i < length qs" and j: "j < length qs"
  let ?R = "registry_after qs initial_registry"
  from tokens_after i obtain v where v: "stored ?R (qs ! i) = Some v"
    "ask_all qs initial_registry ! i = Inr (format_counter v (token_prefix (qs ! i)) 4)"
    by blast
  from tokens_after j obtain v' where v': "stored ?R (qs ! j) = Some v'"
    "ask_all qs initial_registry ! j = Inr (format_counter v' (token_prefix (qs ! j)) 4)"
    by blast
  show "ask_all qs initial_registry ! i = ask_all qs initial_registry ! j \<longleftrightarrow> qs ! i = qs ! j"
    using token_eq_iff [OF reg_inv_after v(1) v'(1)] by (simp add: v(2) v'(2))
next
  fix i assume i: "i < length qs" and first: "qs ! i \<notin> set (take i qs)"
  from tokens_after i first show "ask_all qs initial_registry ! i =
          Inr (format_counter (int (card {q \<in> set (take i qs). same_registry q (qs ! i)}) + 1)
                 (token_prefix (qs ! i)) 4)"
    by blast
next
  fix i assume "i < length qs"
  with tokens_after show "\<exists>token. ask_all qs initial_registry ! i = Inr token"
    by blast
qed

theorem counter_registry_tokens_witness:
  "ask_all example_queries initial_registry ! 0 = ask_all example_queries initial_registry ! 3
   \<and> ask_all example_queries initial_registry ! 0 \<noteq> ask_all example_queries initial_registry ! 2
   \<and> ask_all example_queries initial_registry ! 2 = Inr ''DAT0002''
   \<and> ask_all example_queries initial_registry
       = [Inr ''DAT0001'', Inr ''SEQ0001'', Inr ''DAT0002'', Inr ''DAT0001'', Inr ''SEQ0002'']"
proof -
  note t = counter_registry_tokens [of example_queries]
  have len: "length example_queries = 5"
    by (simp add: example_queries_def)
  have q03: "example_queries ! 0 = example_queries ! 3"
    by (simp add: example_queries_def)
  have q02: "example_queries ! 0 \<noteq> example_queries ! 2"
    by (simp add: example_queries_def)
  have first: "example_queries ! 2 \<notin> set (take 2 example_queries)"
    by (simp add: example_queries_def)
  have seen: "{q \<in> set (take 2 example_queries). same_registry q (example_queries ! 2)} =
      {DateQuery ''P1'' ''20200101''}"
    by (auto simp: example_queries_def)
  have fmt: "format_counter 2 (token_prefix (example_queries ! 2)) 4 = ''DAT0002''"
    by (simp add: example_queries_def) code_simp
  from t len have eqs: "\<forall>i<5. \<forall>j<5.
        (ask_all example_queries initial_registry ! i = ask_all example_queries initial_registry ! j
          \<longleftrightarrow> example_queries ! i = example_queries ! j)"
    by simp
  from eqs q03 have a: "ask_all example_queries initial_registry ! 0 =
      ask_all example_queries initial_registry ! 3"
    by simp
  from eqs q02 have b: "ask_all example_queries initial_registry ! 0 \<noteq>
      ask_all example_queries initial_registry ! 2"
    by simp
  from t len have "\<forall>i<5. example_queries ! i \<notin> set (take i example_queries) \<longrightarrow>
        ask_all example_queries initial_registry ! i =
          Inr (format_counter
                 (int (card {q \<in> set (take i example_queries). same_registry q (example_queries ! i)}) + 1)
                 (token_prefix (example_queries ! i)) 4)"
    by simp
  with first seen fmt have c: "ask_all example_queries initial_registry ! 2 = Inr ''DAT0002''"
    by simp
  have d: "ask_all example_queries initial_registry
       = [Inr ''DAT0001'', Inr ''SEQ0001'', Inr ''DAT0002'', Inr ''DAT0001'', Inr ''SEQ0002'']"
    by code_simp
  from a b c d show ?thesis by simp
qed

subsection \<open>Claim C2: remapping the patient id\<close>



subsection \<open>Claim C3: clearing the name and the birth date\<close>




subsection \<open>Claim C4: unique file names\<close>

lemma generate_unique_filename_loop_result:
  "\<not> os_path_exists w (os_path_join directory
        (generate_unique_filename_loop w directory base_name extension counter new_filename))
   \<and> (if os_path_exists w (os_path_join directory new_filename)
      then \<exists>k\<ge>counter.
             generate_unique_filename_loop w directory base_name extension counter new_filename =
               numbered_name base_name k extension \<and>
             (\<forall>j. counter \<le> j \<and> j < k \<longrightarrow>
                os_path_exists w (os_path_join directory (numbered_name base_name j extension)))
      else generate_unique_filename_loop w directory base_name extension counter new_filename =
             new_filename)"
proof (induction w directory base_name extension counter new_filename
        rule: generate_unique_filename_loop.induct)
  case (1 w directory base_name extension counter new_filename)
  let ?next = "numbered_name base_name counter extension"
  let ?r = "generate_unique_filename_loop w directory base_name extension (counter + 1) ?next"
  show ?case
  proof (cases "os_path_exists w (os_path_join directory new_filename)")
    case False
    then show ?thesis
      by (subst (1 2) generate_unique_filename_loop.simps) simp
  next
    case True
    then have unfold:
      "generate_unique_filename_loop w directory base_name extension counter new_filename = ?r"
      by (subst generate_unique_filename_loop.simps) simp
    note IH = "1.IH" [OF True]
    show ?thesis
    proof (cases "os_path_exists w (os_path_join directory ?next)")
      case False
      with IH have "?r = ?next" by simp
      with True False unfold show ?thesis
        by (auto intro!: exI [of _ counter])
    next
      case next_exists: True
      with IH obtain k where k: "counter + 1 \<le> k" "?r = numbered_name base_name k extension"
        "\<forall>j. counter + 1 \<le> j \<and> j < k \<longrightarrow>
            os_path_exists w (os_path_join directory (numbered_name base_name j extension))"
        by auto
      have "\<forall>j. counter \<le> j \<and> j < k \<longrightarrow>
            os_path_exists w (os_path_join directory (numbered_name base_name j extension))"
      proof (intro allI impI)
        fix j assume j: "counter \<le> j \<and> j < k"
        show "os_path_exists w (os_path_join directory (numbered_name base_name j extension))"
        proof (cases "j = counter")
          case True with next_exists show ?thesis by simp
        next
          case False with j k(3) show ?thesis by simp
        qed
      qed
      moreover from IH have "\<not> os_path_exists w (os_path_join directory ?r)" by simp
      ultimately show ?thesis
        using True unfold k(1,2) by (auto intro!: exI [of _ k])
    qed
  qed
qed

text \<open>
  Claim C4. For every state of the files and every proposed name, the name returned by
  \<open>generate_unique_filename\<close> does not exist in the directory. A free proposed name is
  returned as it is; a taken one yields the name with suffix \<open>_k\<close> before the extension
  for the least \<open>k \<ge> 1\<close> whose name is free, all names with smaller suffixes being
  taken. Beside an existing \<open>IM000001\<close> the result is \<open>IM000001_1\<close>.
\<close>

theorem generate_unique_filename_fresh:
  "\<not> os_path_exists w (os_path_join directory (generate_unique_filename w directory filename))
   \<and> (\<not> os_path_exists w (os_path_join directory filename) \<longrightarrow>
        generate_unique_filename w directory filename = filename)
   \<and> (os_path_exists w (os_path_join directory filename) \<longrightarrow>
        (\<exists>k\<ge>1. generate_unique_filename w directory filename =
                  numbered_name (fst (os_path_splitext filename)) k (snd (os_path_splitext filename)) \<and>
               (\<forall>j. 1 \<le> j \<and> j < k \<longrightarrow>
                  os_path_exists w (os_path_join directory
                    (numbered_name (fst (os_path_splitext filename)) j (snd (os_path_splitext filename)))))))
   \<and> generate_unique_filename \<lparr>files = [(''out/IM000001'', Unreadable)], unwritable = [], missing_ids = {}\<rparr>
        ''out'' ''IM000001'' = ''IM000001_1''"
proof (intro conjI)
  obtain base_name extension where split: "os_path_splitext filename = (base_name, extension)"
    by (cases "os_path_splitext filename")
  have eq: "generate_unique_filename w directory filename =
      generate_unique_filename_loop w directory base_name extension 1 filename"
    by (simp add: generate_unique_filename_def split)
  note res = generate_unique_filename_loop_result [of w directory base_name extension 1 filename]
  show "\<not> os_path_exists w (os_path_join directory (generate_unique_filename w directory filename))"
    using res eq by simp
  show "\<not> os_path_exists w (os_path_join directory filename) \<longrightarrow>
        generate_unique_filename w directory filename = filename"
    using res eq by simp
  show "os_path_exists w (os_path_join directory filename) \<longrightarrow>
        (\<exists>k\<ge>1. generate_unique_filename w directory filename =
                  numbered_name (fst (os_path_splitext filename)) k (snd (os_path_splitext filename)) \<and>
               (\<forall>j. 1 \<le> j \<and> j < k \<longrightarrow>
                  os_path_exists w (os_path_join directory
                    (numbered_name (fst (os_path_splitext filename)) j (snd (os_path_splitext filename))))))"
    using res eq unfolding split fst_conv snd_conv by simp
  show "generate_unique_filename \<lparr>files = [(''out/IM000001'', Unreadable)], unwritable = [], missing_ids = {}\<rparr>
        ''out'' ''IM000001'' = ''IM000001_1''"
    by code_simp
qed

theorem generate_unique_filename_fresh_witness:
  "generate_unique_filename
     \<lparr>files = [(''out/a.dcm'', Unreadable), (''out/a_1.dcm'', Unreadable)], unwritable = [], missing_ids = {}\<rparr>
     ''out'' ''a.dcm'' = ''a_2.dcm''
   \<and> \<not> os_path_exists
     \<lparr>files = [(''out/a.dcm'', Unreadable), (''out/a_1.dcm'', Unreadable)], unwritable = [], missing_ids = {}\<rparr>
     ''out/a_2.dcm''
   \<and> generate_unique_filename
     \<lparr>files = [(''out/a.dcm'', Unreadable), (''out/a_1.dcm'', Unreadable)], unwritable = [], missing_ids = {}\<rparr>
     ''out'' ''b.dcm'' = ''b.dcm''"
proof -
  let ?w = "\<lparr>files = [(''out/a.dcm'', Unreadable), (''out/a_1.dcm'', Unreadable)], unwritable = [], missing_ids = {}\<rparr>"
  have a: "generate_unique_filename ?w ''out'' ''a.dcm'' = ''a_2.dcm''"
    by code_simp
  have b: "\<not> os_path_exists ?w (os_path_join ''out'' ''b.dcm'')"
    by code_simp
  have c: "os_path_join ''out'' ''a_2.dcm'' = ''out/a_2.dcm''"
    by code_simp
  from generate_unique_filename_fresh [of ?w "''out''" "''a.dcm''"] a c
  have "\<not> os_path_exists ?w ''out/a_2.dcm''" by simp
  moreover from generate_unique_filename_fresh [of ?w "''out''" "''b.dcm''"] b
  have "generate_unique_filename ?w ''out'' ''b.dcm'' = ''b.dcm''" by blast
  ultimately show ?thesis using a by simp
qed

subsection \<open>Claim C5: guarded overwrite\<close>

text \<open>
  Claim C5. Let a call of \<open>copy_or_move_dicom_image\<close> get as far as the check for an
  existing destination (the file decodes, the series is accepted, the directory can be
  made), and let the destination path it computed exist. Without the force flag the call
  returns as skipped and the files are untouched: only \<open>missing_ids\<close> may have grown.
  With the force flag, a destination that is a writable regular file other than the source
  holds the source's content afterwards, and the source is gone when the call moves.
\<close>

theorem copy_or_move_guarded_overwrite:
  assumes ext: "\<not> list_ex (\<lambda>ext. py_endswith (py_lower src_file) ext) non_dicom_extensions"
    and read: "dcmread w src_file = Inr dataset0"
    and anon: "anonymize_step anonymize id_map dataset0 (missing_ids w) = Inr (dataset, missing)"
    and series: "get_dicom_attribute dataset ''SeriesDescription'' = Inr series_desc"
                "get_dicom_attribute dataset ''SeriesNumber'' = Inr series_num"
                "should_process_series series_desc series_num"
    and dest: "dest_paths_of sanitize_filepath dataset dest_base_dir pattern =
                 Inr (dest_directory, dest_file_path)"
    and mk: "os_makedirs (w\<lparr>missing_ids := missing\<rparr>) dest_directory = Inr w1"
    and exists: "os_path_exists w dest_file_path"
  shows "(\<not> force \<longrightarrow>
            copy_or_move_dicom_image sanitize_filepath src_file dest_base_dir pattern anonymize id_map
              move force w = (Inr SkippedDestinationExists, w\<lparr>missing_ids := missing\<rparr>))
       \<and> (force \<and> \<not> os_path_isdir w dest_file_path \<and> dest_file_path \<notin> set (unwritable w)
            \<and> src_file \<noteq> dest_file_path \<longrightarrow>
            (\<exists>w'. copy_or_move_dicom_image sanitize_filepath src_file dest_base_dir pattern anonymize
                     id_map move force w =
                   (Inr (if move then Moved src_file dest_file_path
                         else Copied src_file dest_file_path), w')
                 \<and> map_of (files w') dest_file_path = map_of (files w) src_file
                 \<and> map_of (files w') src_file = (if move then None else map_of (files w) src_file)))"
proof -
  from mk have w1: "w1 = w\<lparr>missing_ids := missing\<rparr>"
    by (simp add: os_makedirs_def split: if_splits)
  have ex1: "os_path_exists w1 dest_file_path"
    using exists by (simp add: w1 os_path_exists_def)
  have dir1: "os_path_isdir w1 p = os_path_isdir w p" for p
    by (simp add: w1 os_path_isdir_def)
  from read obtain src_content where src: "map_of (files w) src_file = Some src_content"
    by (auto simp: dcmread_def split: option.splits)
  have unfold: "copy_or_move_dicom_image sanitize_filepath src_file dest_base_dir pattern anonymize
        id_map move force w =
      (if \<not> force \<and> os_path_exists w1 dest_file_path
       then (Inr SkippedDestinationExists, w1)
       else if move
       then (case shutil_move w1 src_file dest_file_path of
               Inl e \<Rightarrow> (Inl e, w1)
             | Inr w3 \<Rightarrow> (Inr (Moved src_file dest_file_path), w3))
       else (case shutil_copy2 w1 src_file dest_file_path of
               Inl e \<Rightarrow> (Inl e, w1)
             | Inr w3 \<Rightarrow> (Inr (Copied src_file dest_file_path), w3)))"
    using ext read anon series dest mk unfolding w1
    by (simp add: copy_or_move_dicom_image_def Let_def)
  have skip: "\<not> force \<longrightarrow>
      copy_or_move_dicom_image sanitize_filepath src_file dest_base_dir pattern anonymize id_map
        move force w = (Inr SkippedDestinationExists, w\<lparr>missing_ids := missing\<rparr>)"
  proof
    assume "\<not> force"
    with unfold ex1 show "copy_or_move_dicom_image sanitize_filepath src_file dest_base_dir pattern
        anonymize id_map move force w = (Inr SkippedDestinationExists, w\<lparr>missing_ids := missing\<rparr>)"
      by (simp add: w1)
  qed
  have over: "force \<and> \<not> os_path_isdir w dest_file_path \<and> dest_file_path \<notin> set (unwritable w)
            \<and> src_file \<noteq> dest_file_path \<longrightarrow>
            (\<exists>w'. copy_or_move_dicom_image sanitize_filepath src_file dest_base_dir pattern anonymize
                     id_map move force w =
                   (Inr (if move then Moved src_file dest_file_path
                         else Copied src_file dest_file_path), w')
                 \<and> map_of (files w') dest_file_path = map_of (files w) src_file
                 \<and> map_of (files w') src_file = (if move then None else map_of (files w) src_file))"
  proof (intro impI)
    assume a: "force \<and> \<not> os_path_isdir w dest_file_path \<and> dest_file_path \<notin> set (unwritable w)
            \<and> src_file \<noteq> dest_file_path"
    then have wr: "write_file w1 dest_file_path src_content =
        Inr (w1\<lparr>files := AList.update dest_file_path src_content (files w1)\<rparr>)"
      by (simp add: write_file_def dir1) (simp add: w1)
    show "\<exists>w'. copy_or_move_dicom_image sanitize_filepath src_file dest_base_dir pattern anonymize
                     id_map move force w =
                   (Inr (if move then Moved src_file dest_file_path
                         else Copied src_file dest_file_path), w')
                 \<and> map_of (files w') dest_file_path = map_of (files w) src_file
                 \<and> map_of (files w') src_file = (if move then None else map_of (files w) src_file)"
    proof (cases move)
      case True
      have "shutil_move w1 src_file dest_file_path =
          Inr (w1\<lparr>files := AList.delete src_file (AList.update dest_file_path src_content (files w1))\<rparr>)"
        using a src wr by (simp add: shutil_move_def dir1) (simp add: w1)
      with True a unfold src show ?thesis
        by (auto simp: w1 update_conv' delete_conv')
    next
      case False
      have "shutil_copy2 w1 src_file dest_file_path =
          Inr (w1\<lparr>files := AList.update dest_file_path src_content (files w1)\<rparr>)"
        using a src wr by (simp add: shutil_copy2_def dir1) (simp add: w1)
      with False a unfold src show ?thesis
        by (auto simp: w1 update_conv')
    qed
  qed
  from skip over show ?thesis ..
qed

theorem copy_or_move_guarded_overwrite_witness:
  "copy_or_move_dicom_image strip_control ''in/a.dcm'' ''out'' ''%PatientID%/%SeriesDescription%''
      False None True False example_world = (Inr SkippedDestinationExists, example_world)
   \<and> (\<exists>w'. copy_or_move_dicom_image strip_control ''in/a.dcm'' ''out'' ''%PatientID%/%SeriesDescription%''
               False None True True example_world =
             (Inr (Moved ''in/a.dcm'' ''out/P1/T2_FLAIR/1.2.3.dcm''), w')
           \<and> map_of (files w') ''out/P1/T2_FLAIR/1.2.3.dcm'' = Some (Dicom example_dataset)
           \<and> map_of (files w') ''in/a.dcm'' = None)"
proof -
  have ext: "\<not> list_ex (\<lambda>ext. py_endswith (py_lower ''in/a.dcm'') ext) non_dicom_extensions"
    by code_simp
  have stored: "read_elements example_dataset = example_dataset"
    by (rule HOL.ext) (simp add: read_elements_def example_dataset_def strip_padding_def)
  have read: "dcmread example_world ''in/a.dcm'' = Inr example_dataset"
    by (simp add: dcmread_def example_world_def stored)
  have anon: "anonymize_step False None example_dataset (missing_ids example_world) =
      Inr (example_dataset, {})"
    by (simp add: anonymize_step_def truthy_id_map_def example_world_def)
  have sd: "get_dicom_attribute example_dataset ''SeriesDescription'' = Inr ''T2_FLAIR''"
    by (simp add: get_dicom_attribute_def py_getattr_def example_dataset_def)
  have sn: "get_dicom_attribute example_dataset ''SeriesNumber'' = Inr ''11''"
    by (simp add: get_dicom_attribute_def py_getattr_def example_dataset_def)
  have sp: "should_process_series ''T2_FLAIR'' ''11''"
    by code_simp
  have dest: "dest_paths_of strip_control example_dataset ''out'' ''%PatientID%/%SeriesDescription%'' =
                 Inr (''out/P1/T2_FLAIR'', ''out/P1/T2_FLAIR/1.2.3.dcm'')"
    by code_simp
  have same: "example_world\<lparr>missing_ids := {}\<rparr> = example_world"
    by (simp add: example_world_def)
  have mk: "os_makedirs (example_world\<lparr>missing_ids := {}\<rparr>) ''out/P1/T2_FLAIR'' = Inr example_world"
    unfolding same by (simp add: os_makedirs_def example_world_def)
  have ex: "os_path_exists example_world ''out/P1/T2_FLAIR/1.2.3.dcm''"
    by (simp add: os_path_exists_def example_world_def)
  have nd: "\<not> os_path_isdir example_world ''out/P1/T2_FLAIR/1.2.3.dcm''"
    by (simp add: os_path_isdir_def example_world_def)
  have uw: "''out/P1/T2_FLAIR/1.2.3.dcm'' \<notin> set (unwritable example_world)"
    by (simp add: example_world_def)
  have src: "map_of (files example_world) ''in/a.dcm'' = Some (Dicom example_dataset)"
    by (simp add: example_world_def)
  note gw = copy_or_move_guarded_overwrite [OF ext read anon sd sn sp dest mk ex]
  from gw [of False True] same
  have a: "copy_or_move_dicom_image strip_control ''in/a.dcm'' ''out'' ''%PatientID%/%SeriesDescription%''
      False None True False example_world = (Inr SkippedDestinationExists, example_world)"
    by simp
  from gw [of True True] nd uw src
  have b: "\<exists>w'. copy_or_move_dicom_image strip_control ''in/a.dcm'' ''out'' ''%PatientID%/%SeriesDescription%''
               False None True True example_world =
             (Inr (Moved ''in/a.dcm'' ''out/P1/T2_FLAIR/1.2.3.dcm''), w')
           \<and> map_of (files w') ''out/P1/T2_FLAIR/1.2.3.dcm'' = Some (Dicom example_dataset)
           \<and> map_of (files w') ''in/a.dcm'' = None"
    by simp
  from a b show ?thesis ..
qed

subsection \<open>Claim C6: the identity extractor\<close>

text \<open>
  Claim C6, as stated, fails: the extractor can raise. The handler takes
  \<open>AttributeError\<close> only; where the conversion of an element that the dataset holds
  raises another exception, the exception leaves \<open>get_dicom_attribute\<close>.
\<close>

theorem get_dicom_attribute_raises:
  "get_dicom_attribute corrupt_dataset ''SeriesNumber'' = Inl BytesLengthException"
  by (simp add: get_dicom_attribute_def py_getattr_def corrupt_dataset_def)

text \<open>
  Claim C6, amended. \<open>get_dicom_attribute\<close> returns the sentinel \<open>UNKNOWN\<close> where the
  attribute access raises \<open>AttributeError\<close>, as it does for every attribute that the
  dataset does not hold, and the string form of the value where the access succeeds; an
  exception of any other kind that the access raises is not handled and leaves the
  function.
\<close>

theorem get_dicom_attribute_cases:
  "get_dicom_attribute dataset attribute =
     (case dataset attribute of
        None \<Rightarrow> Inr ''UNKNOWN''
      | Some (Value v) \<Rightarrow> Inr v
      | Some (Corrupt e) \<Rightarrow> (if e = AttributeError then Inr ''UNKNOWN'' else Inl e))"
  by (simp add: get_dicom_attribute_def py_getattr_def split: option.split element.split py_error.split)

theorem get_dicom_attribute_cases_witness:
  "get_dicom_attribute corrupt_dataset ''PatientID'' = Inr ''A''
   \<and> get_dicom_attribute corrupt_dataset ''StudyDate'' = Inr ''UNKNOWN''"
  using get_dicom_attribute_cases [of corrupt_dataset "''PatientID''"]
        get_dicom_attribute_cases [of corrupt_dataset "''StudyDate''"]
  by (simp add: corrupt_dataset_def)

subsection \<open>Claim C7: the series predicate\<close>

lemma sublist_map_iff:
  "sublist xs (map f ys) \<longleftrightarrow> (\<exists>pre w post. ys = pre @ w @ post \<and> map f w = xs)"
proof
  assume "sublist xs (map f ys)"
  then obtain ps ss where "map f ys = ps @ xs @ ss"
    by (auto simp: sublist_def)
  then obtain pre r where r: "ys = pre @ r" "map f r = xs @ ss"
    by (metis map_eq_append_conv)
  from r(2) obtain w post where "r = w @ post" "map f w = xs"
    by (metis map_eq_append_conv)
  with r show "\<exists>pre w post. ys = pre @ w @ post \<and> map f w = xs"
    by blast
next
  assume "\<exists>pre w post. ys = pre @ w @ post \<and> map f w = xs"
  then obtain pre w post where "ys = pre @ w @ post" "map f w = xs"
    by blast
  then have "map f ys = map f pre @ xs @ map f post"
    by simp
  then show "sublist xs (map f ys)"
    unfolding sublist_def by blast
qed

text \<open>
  Claim C7. The series predicate accepts exactly when the series number ends in the
  digit \<open>1\<close> and some part of the description equals, up to letter case, one of
  \<open>T1\<close>, \<open>T2\<close>, \<open>FLAIR\<close>. \<open>T1_MPRAGE\<close> with number \<open>3\<close> is rejected and \<open>T2_FLAIR\<close> with
  number \<open>11\<close> is accepted.
\<close>

theorem should_process_series_iff:
  "(should_process_series series_desc series_num \<longleftrightarrow>
      (\<exists>m. series_num = m @ ''1'') \<and>
      (\<exists>sub \<in> {''T1'', ''T2'', ''FLAIR''}. \<exists>pre w post.
          series_desc = pre @ w @ post \<and> py_upper w = py_upper sub))
   \<and> \<not> should_process_series ''T1_MPRAGE'' ''3''
   \<and> should_process_series ''T2_FLAIR'' ''11''"
proof (intro conjI)
  have up: "py_upper ''T1'' = ''T1''" "py_upper ''T2'' = ''T2''" "py_upper ''FLAIR'' = ''FLAIR''"
    by code_simp+
  show "should_process_series series_desc series_num \<longleftrightarrow>
      (\<exists>m. series_num = m @ ''1'') \<and>
      (\<exists>sub \<in> {''T1'', ''T2'', ''FLAIR''}. \<exists>pre w post.
          series_desc = pre @ w @ post \<and> py_upper w = py_upper sub)"
    unfolding should_process_series_def py_endswith_def py_in_def
    by (simp add: up suffix_def) (auto simp: py_upper_def sublist_map_iff)
  show "\<not> should_process_series ''T1_MPRAGE'' ''3''"
    by code_simp
  show "should_process_series ''T2_FLAIR'' ''11''"
    by code_simp
qed

theorem should_process_series_iff_witness:
  "should_process_series ''flair_ax'' ''21'' \<and> \<not> should_process_series ''flair_ax'' ''12''"
proof -
  have a: "''21'' = ''2'' @ ''1''" by simp
  have b: "''flair_ax'' = [] @ ''flair'' @ ''_ax''" by simp
  have c: "py_upper ''flair'' = py_upper ''FLAIR''" by code_simp
  have d: "\<not> (\<exists>m. ''12'' = m @ ''1'')" by (simp add: append_eq_Cons_conv)
  from should_process_series_iff [of "''flair_ax''" "''21''"] a b c
  have "should_process_series ''flair_ax'' ''21''" by blast
  moreover from should_process_series_iff [of "''flair_ax''" "''12''"] d
  have "\<not> should_process_series ''flair_ax'' ''12''" by blast
  ultimately show ?thesis by simp
qed

subsection \<open>Claim C8: sanitizing twice\<close>

lemma py_replace_char:
  "py_replace [a] new s = concat (map (\<lambda>c. if c = a then new else [c]) s)"
proof (induction s)
  case Nil
  show ?case by (subst py_replace.simps) simp
next
  case (Cons x xs)
  then show ?case by (subst py_replace.simps) auto
qed

lemma sanitize_series_description_pre_clean:
  "sanitize_series_description sanitize_filepath description = sanitize_filepath (pre_clean description)"
  by (simp add: sanitize_series_description_def pre_clean_def)

lemma pre_clean_free: "c \<in> set (pre_clean s) \<Longrightarrow> c \<notin> set rewritten_chars"
  by (auto simp: pre_clean_def re_sub_class_def py_replace_char rewritten_chars_def invalid_chars_def
        split: if_splits)

lemma pre_clean_id:
  assumes "\<forall>c \<in> set s. c \<notin> set rewritten_chars"
  shows "pre_clean s = s"
proof -
  have a: "py_replace '' '' ''_'' s = s"
    using assms by (induction s) (auto simp: py_replace_char rewritten_chars_def)
  have b: "py_replace ''*'' [] s = s"
    using assms by (induction s) (auto simp: py_replace_char rewritten_chars_def invalid_chars_def)
  have c: "py_replace ''.'' ''_'' s = s"
    using assms by (induction s) (auto simp: py_replace_char rewritten_chars_def)
  have d: "re_sub_class invalid_chars s = s"
    using assms by (induction s) (auto simp: re_sub_class_def rewritten_chars_def)
  show ?thesis
    by (simp add: pre_clean_def a b c d)
qed

text \<open>
  Claim C8. Sanitizing a series description twice gives the same string as sanitizing it
  once, for every description. \<open>sanitize_filepath\<close> is the library's function: on the
  strings that hold none of the characters that the tool rewrites, it is taken to be
  idempotent itself and to put none of these characters into its result.
\<close>

theorem sanitize_series_description_idempotent:
  assumes idem: "\<forall>s. (\<forall>c \<in> set s. c \<notin> set rewritten_chars) \<longrightarrow>
                     sanitize_filepath (sanitize_filepath s) = sanitize_filepath s"
    and keeps: "\<forall>s. (\<forall>c \<in> set s. c \<notin> set rewritten_chars) \<longrightarrow>
                     (\<forall>c \<in> set (sanitize_filepath s). c \<notin> set rewritten_chars)"
  shows "sanitize_series_description sanitize_filepath
           (sanitize_series_description sanitize_filepath description) =
         sanitize_series_description sanitize_filepath description"
proof -
  let ?t = "sanitize_filepath (pre_clean description)"
  have free: "\<forall>c \<in> set (pre_clean description). c \<notin> set rewritten_chars"
    using pre_clean_free by blast
  with keeps have "\<forall>c \<in> set ?t. c \<notin> set rewritten_chars"
    by blast
  then have "pre_clean ?t = ?t" by (rule pre_clean_id)
  moreover from idem free have "sanitize_filepath ?t = ?t"
    by blast
  ultimately show ?thesis
    by (simp add: sanitize_series_description_pre_clean)
qed

theorem sanitize_series_description_idempotent_witness:
  "sanitize_series_description strip_control ''T1 mprage*. <x>:y/z|?'' = ''T1_mprage__xyz''
   \<and> sanitize_series_description strip_control
       (sanitize_series_description strip_control ''T1 mprage*. <x>:y/z|?'') = ''T1_mprage__xyz''"
proof -
  have i: "\<forall>s. (\<forall>c \<in> set s. c \<notin> set rewritten_chars) \<longrightarrow>
             strip_control (strip_control s) = strip_control s"
    by (simp add: strip_control_def)
  have k: "\<forall>s. (\<forall>c \<in> set s. c \<notin> set rewritten_chars) \<longrightarrow>
             (\<forall>c \<in> set (strip_control s). c \<notin> set rewritten_chars)"
    by (simp add: strip_control_def)
  have v: "sanitize_series_description strip_control ''T1 mprage*. <x>:y/z|?'' = ''T1_mprage__xyz''"
    by code_simp
  from sanitize_series_description_idempotent [OF i k, of "''T1 mprage*. <x>:y/z|?''"] v
  show ?thesis by simp
qed

subsection \<open>Claim C9: failures of single files\<close>

text \<open>
  Claim C9, as stated, fails for the sorting tool. A regular file stands where the
  destination directory of the one input file is needed: \<open>os.makedirs\<close> raises inside the
  file's pipeline, \<open>process_file\<close> raises it, and it leaves \<open>copy_directory\<close> and
  \<open>sort_dicom\<close>; no outcome is recorded for the file.
\<close>

theorem sorting_tool_run_aborted:
  "os_walk_files blocked_world ''in'' = [''in/a.dcm'']
   \<and> fst (process_file_sorting strip_control ''in/a.dcm'' ''out''
             ''%PatientID%/%StudyDate%/%SeriesDescription%'' False None False blocked_world)
       = Inl FileExistsError
   \<and> fst (sort_dicom_sorting strip_control ''in'' ''out'' False None False blocked_world)
       = Inl FileExistsError"
  by code_simp

lemma process_file_protocol_returns:
  "\<exists>w1. process_file_protocol file_path w =
     (Inr (file_path,
           case dcmread_force w file_path of
             Inl e \<Rightarrow> False
           | Inr (preamble, ds) \<Rightarrow>
               (case py_getattr_default ds ''ProtocolName'' [] of
                  Inl e \<Rightarrow> False
                | Inr current_protocol \<Rightarrow>
                    \<not> os_path_isdir w file_path \<and> file_path \<notin> set (unwritable w))), w1)"
  by (auto simp: process_file_protocol_def save_as_def write_file_def Let_def split: sum.splits)

lemma submit_all_protocol:
  "\<exists>outcomes w1. submit_all process_file_protocol all_files w = (map Inr outcomes, w1)
      \<and> map fst outcomes = all_files"
proof (induction all_files arbitrary: w)
  case Nil
  show ?case by simp
next
  case (Cons f all_files)
  obtain b w1 where first: "process_file_protocol f w = (Inr (f, b), w1)"
    using process_file_protocol_returns by blast
  from Cons [of w1] obtain outcomes w2 where
    rest: "submit_all process_file_protocol all_files w1 = (map Inr outcomes, w2)"
      "map fst outcomes = all_files"
    by blast
  have "submit_all process_file_protocol (f # all_files) w = (map Inr ((f, b) # outcomes), w2)
      \<and> map fst ((f, b) # outcomes) = f # all_files"
    by (simp add: first rest)
  then show ?case by (intro exI)
qed

lemma pool_results_map_Inr: "pool_results (map Inr xs) = Inr xs"
  by (induction xs) (simp_all add: bind_err_def)

lemma tally_counts:
  "tally results (s, f) =
     (s + length (filter snd results), f + length (filter (\<lambda>r. \<not> snd r) results))"
  by (induction results "(s, f)" arbitrary: s f rule: tally.induct) auto

lemma protocol_tool_outcomes:
  "\<exists>outcomes w1.
        submit_all process_file_protocol (os_walk_files w dicom_folder) w = (map Inr outcomes, w1)
      \<and> map fst outcomes = os_walk_files w dicom_folder
      \<and> main_protocol dicom_folder w =
          (Inr (if os_walk_files w dicom_folder = [] then None
                else Some (length (filter snd outcomes),
                           length (filter (\<lambda>r. \<not> snd r) outcomes))), w1)
      \<and> length (filter snd outcomes) + length (filter (\<lambda>r. \<not> snd r) outcomes) =
          length (os_walk_files w dicom_folder)"
proof -
  let ?files = "os_walk_files w dicom_folder"
  obtain outcomes w1 where
    run: "submit_all process_file_protocol ?files w = (map Inr outcomes, w1)"
    and paths: "map fst outcomes = ?files"
    using submit_all_protocol by blast
  have count: "length (filter snd outcomes) + length (filter (\<lambda>r. \<not> snd r) outcomes) = length ?files"
    using sum_length_filter_compl [of snd outcomes] paths
    by (metis length_map)
  have "main_protocol dicom_folder w =
          (Inr (if ?files = [] then None
                else Some (length (filter snd outcomes),
                           length (filter (\<lambda>r. \<not> snd r) outcomes))), w1)"
  proof (cases "?files = []")
    case True
    with run show ?thesis
      by (simp add: main_protocol_def)
  next
    case False
    with run show ?thesis
      by (simp add: main_protocol_def Let_def pool_results_map_Inr tally_counts)
  qed
  with run paths count show ?thesis
    by blast
qed

lemma future_results_Inr: "future_results rs = Inr () \<longleftrightarrow> (\<forall>r \<in> set rs. \<exists>x. r = Inr x)"
  by (induction rs rule: future_results.induct) auto

lemma future_results_Inl: "future_results rs = Inl e \<Longrightarrow> Inl e \<in> set rs"
  by (induction rs rule: future_results.induct) auto

text \<open>
  Claim C9, amended. In the protocol-name tool \<open>process_file\<close> never raises: a failure
  to read the file, to read its ProtocolName or to write the file becomes the outcome
  \<open>(path, False)\<close>. Over the enumerated files the pool returns one outcome per file, for
  that file's path; \<open>main\<close> does not raise, and the counts it reports (none when no file
  was found) are the number of successes and the number of failures, which add up to the
  number of files. In the sorting tool a file that does not decode is skipped without an
  exception, and \<open>copy_directory\<close> returns normally exactly when the call for every
  enumerated file did; otherwise it raises an exception that one of the calls raised.
\<close>

theorem protocol_tool_tally:
  "(\<exists>w1. process_file_protocol file_path w =
      (Inr (file_path,
            case dcmread_force w file_path of
              Inl e \<Rightarrow> False
            | Inr (preamble, ds) \<Rightarrow>
                (case py_getattr_default ds ''ProtocolName'' [] of
                   Inl e \<Rightarrow> False
                 | Inr current_protocol \<Rightarrow>
                     \<not> os_path_isdir w file_path \<and> file_path \<notin> set (unwritable w))), w1))
   \<and> (\<exists>outcomes w1.
        submit_all process_file_protocol (os_walk_files w dicom_folder) w = (map Inr outcomes, w1)
      \<and> map fst outcomes = os_walk_files w dicom_folder
      \<and> main_protocol dicom_folder w =
          (Inr (if os_walk_files w dicom_folder = [] then None
                else Some (length (filter snd outcomes),
                           length (filter (\<lambda>r. \<not> snd r) outcomes))), w1)
      \<and> length (filter snd outcomes) + length (filter (\<lambda>r. \<not> snd r) outcomes) =
          length (os_walk_files w dicom_folder))
   \<and> (\<not> list_ex (\<lambda>ext. py_endswith (py_lower file_path) ext) non_dicom_extensions
        \<and> (\<exists>e. dcmread w file_path = Inl e) \<longrightarrow>
        process_file_sorting sanitize_filepath file_path dest_dir pattern anonymize id_map
          decompress w = (Inr NotADicomFile, w))
   \<and> (fst (copy_directory_sorting sanitize_filepath src_dir dest_dir pattern anonymize id_map
              decompress w) = Inr () \<longleftrightarrow>
        (\<forall>r \<in> set (fst (submit_all
                 (\<lambda>f. process_file_sorting sanitize_filepath f dest_dir pattern anonymize id_map
                        decompress)
                 (os_walk_files w src_dir) w)). \<exists>outcome. r = Inr outcome))
   \<and> (\<forall>e. fst (copy_directory_sorting sanitize_filepath src_dir dest_dir pattern anonymize id_map
                 decompress w) = Inl e \<longrightarrow>
        Inl e \<in> set (fst (submit_all
                 (\<lambda>f. process_file_sorting sanitize_filepath f dest_dir pattern anonymize id_map
                        decompress)
                 (os_walk_files w src_dir) w)))"
proof (intro conjI)
  show "\<exists>w1. process_file_protocol file_path w =
      (Inr (file_path,
            case dcmread_force w file_path of
              Inl e \<Rightarrow> False
            | Inr (preamble, ds) \<Rightarrow>
                (case py_getattr_default ds ''ProtocolName'' [] of
                   Inl e \<Rightarrow> False
                 | Inr current_protocol \<Rightarrow>
                     \<not> os_path_isdir w file_path \<and> file_path \<notin> set (unwritable w))), w1)"
    by (rule process_file_protocol_returns)
  show "\<exists>outcomes w1.
        submit_all process_file_protocol (os_walk_files w dicom_folder) w = (map Inr outcomes, w1)
      \<and> map fst outcomes = os_walk_files w dicom_folder
      \<and> main_protocol dicom_folder w =
          (Inr (if os_walk_files w dicom_folder = [] then None
                else Some (length (filter snd outcomes),
                           length (filter (\<lambda>r. \<not> snd r) outcomes))), w1)
      \<and> length (filter snd outcomes) + length (filter (\<lambda>r. \<not> snd r) outcomes) =
          length (os_walk_files w dicom_folder)"
    by (rule protocol_tool_outcomes)
  show "\<not> list_ex (\<lambda>ext. py_endswith (py_lower file_path) ext) non_dicom_extensions
        \<and> (\<exists>e. dcmread w file_path = Inl e) \<longrightarrow>
        process_file_sorting sanitize_filepath file_path dest_dir pattern anonymize id_map
          decompress w = (Inr NotADicomFile, w)"
    by (auto simp: process_file_sorting_def copy_dicom_image_def)
  obtain futures w1 where run: "submit_all
        (\<lambda>f. process_file_sorting sanitize_filepath f dest_dir pattern anonymize id_map decompress)
        (os_walk_files w src_dir) w = (futures, w1)"
    by (cases "submit_all
        (\<lambda>f. process_file_sorting sanitize_filepath f dest_dir pattern anonymize id_map decompress)
        (os_walk_files w src_dir) w")
  have result: "fst (copy_directory_sorting sanitize_filepath src_dir dest_dir pattern anonymize
        id_map decompress w) = future_results futures"
    by (simp add: copy_directory_sorting_def run)
  show "fst (copy_directory_sorting sanitize_filepath src_dir dest_dir pattern anonymize id_map
              decompress w) = Inr () \<longleftrightarrow>
        (\<forall>r \<in> set (fst (submit_all
                 (\<lambda>f. process_file_sorting sanitize_filepath f dest_dir pattern anonymize id_map
                        decompress)
                 (os_walk_files w src_dir) w)). \<exists>outcome. r = Inr outcome)"
    by (simp add: result run future_results_Inr)
  show "\<forall>e. fst (copy_directory_sorting sanitize_filepath src_dir dest_dir pattern anonymize id_map
                 decompress w) = Inl e \<longrightarrow>
        Inl e \<in> set (fst (submit_all
                 (\<lambda>f. process_file_sorting sanitize_filepath f dest_dir pattern anonymize id_map
                        decompress)
                 (os_walk_files w src_dir) w))"
    by (simp add: result run future_results_Inl)
qed

theorem protocol_tool_tally_witness:
  "fst (main_protocol ''in'' mixed_world) = Inr (Some (2, 3))
   \<and> fst (process_file_protocol ''in/T2/d.dcm'' mixed_world) = Inr (''in/T2/d.dcm'', False)
   \<and> process_file_sorting strip_control ''in/T2/d.dcm'' ''out'' ''%PatientID%'' False None False
       mixed_world = (Inr NotADicomFile, mixed_world)"
proof -
  have m: "fst (main_protocol ''in'' mixed_world) = Inr (Some (2, 3))"
    by code_simp
  have r: "dcmread_force mixed_world ''in/T2/d.dcm'' = Inl InvalidDicomError"
    by (simp add: dcmread_force_def mixed_world_def)
  have r': "dcmread mixed_world ''in/T2/d.dcm'' = Inl InvalidDicomError"
    by (simp add: dcmread_def mixed_world_def)
  have x: "\<not> list_ex (\<lambda>ext. py_endswith (py_lower ''in/T2/d.dcm'') ext) non_dicom_extensions"
    by code_simp
  note t = protocol_tool_tally [of "''in/T2/d.dcm''" mixed_world "''in''" strip_control "''out''"
      "''%PatientID%''" False None False "''in''"]
  from t r have a: "fst (process_file_protocol ''in/T2/d.dcm'' mixed_world) = Inr (''in/T2/d.dcm'', False)"
    by auto
  from t r' x have b: "process_file_sorting strip_control ''in/T2/d.dcm'' ''out'' ''%PatientID%''
      False None False mixed_world = (Inr NotADicomFile, mixed_world)"
    by blast
  from m a b show ?thesis by simp
qed

subsection \<open>Claim C10: the protocol name\<close>

text \<open>
  Claim C10 at a folder whose name starts with a blank. For a file with a stored
  ProtocolName the tool writes the folder name without the blank, which is not the
  basename of the parent folder; for a file without a stored ProtocolName it writes the
  basename as it is. The value written depends on the value stored before.
\<close>

theorem process_file_protocol_strips_folder_name:
  "protocol_name_written ''/data/ T1/a.dcm'' (folder_world named_dataset) = Some (Value ''T1'')
   \<and> protocol_name_written ''/data/ T1/a.dcm'' (folder_world unnamed_dataset) = Some (Value '' T1'')
   \<and> os_path_basename (os_path_dirname ''/data/ T1/a.dcm'') = '' T1''
   \<and> fst (process_file_protocol ''/data/ T1/a.dcm'' (folder_world named_dataset)) =
       Inr (''/data/ T1/a.dcm'', True)"
  by code_simp

end
